theory Spec2Isabelle
  imports Complex_Main
begin

section \<open>Python strings\<close>

text \<open>
  Python \<open>str\<close> values are modelled as \<open>string\<close> (a list of characters); the texts the
  module inspects are ASCII, so one list element stands for one character of the Python
  string and \<open>length\<close> is Python's \<open>len\<close>.
\<close>

definition lower_char :: "char \<Rightarrow> char" where
  "lower_char c =
     (case map_of (zip ''ABCDEFGHIJKLMNOPQRSTUVWXYZ'' ''abcdefghijklmnopqrstuvwxyz'') c of
        Some l \<Rightarrow> l
      | None \<Rightarrow> c)"

definition str_lower :: "string \<Rightarrow> string" where
  \<comment> \<open>\<open>s.lower()\<close>\<close>
  "str_lower s = map lower_char s"

fun starts_with :: "string \<Rightarrow> string \<Rightarrow> bool" where
  "starts_with [] s = True"
| "starts_with (p # ps) [] = False"
| "starts_with (p # ps) (c # cs) = (p = c \<and> starts_with ps cs)"

fun str_in :: "string \<Rightarrow> string \<Rightarrow> bool" where
  \<comment> \<open>\<open>sub in s\<close> on strings: \<open>sub\<close> occurs in \<open>s\<close> as a contiguous run\<close>
  "str_in sub [] = (sub = [])"
| "str_in sub (c # cs) = (starts_with sub (c # cs) \<or> str_in sub cs)"

definition digit_char :: "nat \<Rightarrow> char" where
  "digit_char d = ''0123456789'' ! d"

fun str_nat :: "nat \<Rightarrow> string" where
  \<comment> \<open>\<open>str(n)\<close> and \<open>f"{n}"\<close> for a non-negative integer\<close>
  "str_nat n =
     (if n < 10 then [digit_char n] else str_nat (n div 10) @ [digit_char (n mod 10)])"

declare str_nat.simps [simp del]

definition str_int :: "int \<Rightarrow> string" where
  \<comment> \<open>\<open>str(i)\<close> and \<open>f"{i}"\<close> for an integer\<close>
  "str_int i = (if i < 0 then CHR ''-'' # str_nat (nat (- i)) else str_nat (nat i))"

section \<open>Exceptions\<close>

text \<open>
  The module raises four built-in exception types, each with a message. An exception is
  the pair of its type and its message (\<open>str(e)\<close>); \<open>exc_name\<close> is \<open>type(e).__name__\<close>.
\<close>

datatype exc_type = ValueError | OverflowError | TimeoutError | RuntimeError

type_synonym exn = "exc_type \<times> string"

fun exc_name :: "exc_type \<Rightarrow> string" where
  "exc_name ValueError = ''ValueError''"
| "exc_name OverflowError = ''OverflowError''"
| "exc_name TimeoutError = ''TimeoutError''"
| "exc_name RuntimeError = ''RuntimeError''"

section \<open>Module constants of \<open>gemini_utils\<close>\<close>

definition MAX_RETRIES :: nat where
  "MAX_RETRIES = 3"

definition BASE_DELAY :: real where
  "BASE_DELAY = 2"

definition MAX_CONCURRENT_REQUESTS :: "string list \<Rightarrow> nat" where
  \<comment> \<open>\<open>len(api_keys) * 2 if api_keys else 3\<close>\<close>
  "MAX_CONCURRENT_REQUESTS api_keys = (if api_keys \<noteq> [] then length api_keys * 2 else 3)"

definition MAX_QUEUE_SIZE :: int where
  "MAX_QUEUE_SIZE = 100"

section \<open>The retry coordinator: \<open>process_prompt_direct\<close>\<close>

text \<open>
  What the module does not decide is an input of the model. \<open>replies\<close> scripts the
  upstream service: its \<open>k\<close>-th element is what \<open>generate_content_async\<close> does on the
  attempt made with \<open>retry_count = k\<close>: it answers with a text, raises an exception whose
  \<open>str\<close> is the given text, or does not answer within 90 seconds; past the end of the
  script it does not answer. \<open>models\<close> is what \<open>genai.list_models()\<close> yields (the
  names, \<open>[]\<close> when listing fails), \<open>choices\<close> the indices drawn by \<open>random.choice\<close> and
  \<open>jitters\<close> the values of \<open>random.uniform(0, 1)\<close>, in the order of the draws.
\<close>

datatype response = Text string | Raises string | NoReply

record world =
  models :: "string list"
  replies :: "response list"
  choices :: "nat list"
  jitters :: "real list"

definition reply_at :: "world \<Rightarrow> nat \<Rightarrow> response" where
  "reply_at w k = (if k < length (replies w) then replies w ! k else NoReply)"

definition choice_at :: "world \<Rightarrow> nat \<Rightarrow> nat" where
  "choice_at w k = (if k < length (choices w) then choices w ! k else 0)"

definition jitter_at :: "world \<Rightarrow> nat \<Rightarrow> real" where
  "jitter_at w k = (if k < length (jitters w) then jitters w ! k else 0)"

text \<open>
  The observable actions of one call, in the order the code performs them: entering and
  leaving \<open>async with request_semaphore\<close>, \<open>genai.configure\<close> with a key,
  \<open>genai.list_models\<close>, one upstream generation call (model name and message) and
  \<open>asyncio.sleep\<close>.
\<close>

datatype effect =
    Acquire
  | Release
  | Configure string
  | ListModels
  | Generate string string
  | Sleep real

definition get_random_api_key :: "string list \<Rightarrow> nat \<Rightarrow> exn + string" where
  "get_random_api_key api_keys r =
     (if api_keys = [] then Inl (ValueError, ''No Gemini API keys available'')
      else Inr (api_keys ! (r mod length api_keys)))"

definition preferred_models :: "string list" where
  "preferred_models =
     [''gemini-pro'', ''gemini-1.5-pro'', ''gemini-1.5-flash'', ''gemini-2.0-flash'',
      ''gemini-1.0-pro'']"

fun find_model :: "string list \<Rightarrow> string list \<Rightarrow> string option" where
  \<comment> \<open>the two nested \<open>for\<close> loops: the first preferred name that some model's name contains,
      and for it the first such model\<close>
  "find_model [] ms = None"
| "find_model (p # ps) ms =
     (case find (str_in p) ms of
        Some m \<Rightarrow> Some m
      | None \<Rightarrow> find_model ps ms)"

definition list_available_models :: "world \<Rightarrow> string list" where
  \<comment> \<open>what the caller can still iterate of the value returned: \<open>genai.list_models()\<close> is a
      generator, the loop that logs the names consumes it, and the function returns that
      same generator (or \<open>[]\<close> when listing fails)\<close>
  "list_available_models w = drop (length (models w)) (models w)"

definition model_name_for :: "world \<Rightarrow> nat \<Rightarrow> string" where
  "model_name_for w retry_count =
     (if retry_count = 0 then
        (case find_model preferred_models (list_available_models w) of
           Some m \<Rightarrow> m
         | None \<Rightarrow> ''models/gemini-1.5-flash'')
      else ''models/gemini-pro'')"

definition try_attempt :: "world \<Rightarrow> string list \<Rightarrow> string \<Rightarrow> nat \<Rightarrow> (string + string) \<times> effect list" where
  \<comment> \<open>the body of the \<open>try\<close>: \<open>Inr\<close> the answer, or \<open>Inl\<close> the \<open>str\<close> of the exception caught
      by \<open>except Exception as e\<close>\<close>
  "try_attempt w api_keys message retry_count =
     (case get_random_api_key api_keys (choice_at w (2 * retry_count)) of
        Inl e \<Rightarrow> (Inl (snd e), [])
      | Inr key \<Rightarrow>
          (let effs = [Configure key] @ (if retry_count = 0 then [ListModels] else []) @
                      [Generate (model_name_for w retry_count) message]
           in case reply_at w retry_count of
                Text answer \<Rightarrow> (Inr answer, effs)
              | Raises etxt \<Rightarrow> (Inl etxt, effs)
              | NoReply \<Rightarrow> (Inl ''API request timed out after 90 seconds'', effs)))"

definition final_error :: "string \<Rightarrow> exn" where
  \<comment> \<open>the categorisation once the last attempt has failed; the argument is \<open>str(e)\<close>\<close>
  "final_error err =
     (let error_message = str_lower err in
      if str_in ''overloaded'' error_message \<or> str_in ''rate limit'' error_message \<or>
         str_in ''quota'' error_message
      then (OverflowError, ''That model is currently overloaded with other requests.'')
      else if str_in ''timeout'' error_message \<or> str_in ''deadline'' error_message
      then (TimeoutError, ''Request to the model timed out. Please try again.'')
      else (RuntimeError,
            ''Error with Gemini API after '' @ str_nat MAX_RETRIES @ '' attempts: '' @ err))"

text \<open>
  The result of a call: a returned value (\<open>None\<close> is Python's \<open>None\<close>, what the function
  returns when the \<open>while\<close> loop ends without a \<open>return\<close>) or a raised exception.
\<close>

datatype outcome = Returned "(string \<times> nat) option" | Raised exn

text \<open>
  The \<open>while\<close> loop, from the value \<open>retry_count\<close> has at the head of a turn. The handler
  begins with \<open>retry_count += 1\<close>, so its tests and its delay
  \<open>BASE_DELAY * (2 ** (retry_count - 1))\<close> are written with \<open>retry_count + 1\<close>. An exception
  raised in the \<open>try\<close> before the upstream call returns (by \<open>genai.configure\<close> or by the
  construction of the model) is scripted like one raised by the call.
\<close>

function attempts :: "world \<Rightarrow> string list \<Rightarrow> string \<Rightarrow> nat \<Rightarrow> outcome \<times> effect list" where
  "attempts w api_keys message retry_count =
     (if \<not> retry_count < MAX_RETRIES then (Returned None, [])
      else
        (case try_attempt w api_keys message retry_count of
           (Inr answer, effs) \<Rightarrow>
             (Returned (Some (answer, length message div 4 + length answer div 4)), effs)
         | (Inl err, effs) \<Rightarrow>
             if str_in ''too many tokens'' (str_lower err)
             then (Raised (ValueError, ''Too many tokens to make completion''), effs)
             else if retry_count + 1 < MAX_RETRIES then
               (case get_random_api_key api_keys (choice_at w (2 * retry_count + 1)) of
                  Inl e \<Rightarrow> (Raised e, effs)
                | Inr key \<Rightarrow>
                    (case attempts w api_keys message (retry_count + 1) of
                       (out, effs') \<Rightarrow>
                         (out,
                          effs @
                          [Configure key,
                           Sleep (BASE_DELAY * 2 ^ (retry_count + 1 - 1) +
                                  jitter_at w retry_count)] @
                          effs')))
             else (Raised (final_error err), effs)))"
  by pat_completeness auto
termination
  by (relation "measure (\<lambda>(w, api_keys, message, retry_count). MAX_RETRIES - retry_count)")
     (auto simp: MAX_RETRIES_def)

declare attempts.simps [simp del]

definition process_prompt_direct :: "world \<Rightarrow> string list \<Rightarrow> string \<Rightarrow> outcome \<times> effect list" where
  "process_prompt_direct w api_keys message =
     (case attempts w api_keys message 0 of
        (out, effs) \<Rightarrow> (out, [Acquire] @ effs @ [Release]))"

fun is_generate :: "effect \<Rightarrow> bool" where
  "is_generate (Generate m p) = True"
| "is_generate e = False"

definition upstream_attempts :: "effect list \<Rightarrow> nat" where
  \<comment> \<open>how many upstream generation calls a run made\<close>
  "upstream_attempts effs = length (filter is_generate effs)"

text \<open>
  Predicates on a scripted reply, used to state what the coordinator does: the text of
  the exception an attempt ends with (if it fails), whether that text is classified as
  a too-large payload, and whether the attempt is one the coordinator retries after.
\<close>

definition failure_text :: "response \<Rightarrow> string option" where
  "failure_text r =
     (case r of
        Text answer \<Rightarrow> None
      | Raises etxt \<Rightarrow> Some etxt
      | NoReply \<Rightarrow> Some ''API request timed out after 90 seconds'')"

definition payload_too_large :: "response \<Rightarrow> bool" where
  "payload_too_large r =
     (case failure_text r of
        None \<Rightarrow> False
      | Some etxt \<Rightarrow> str_in ''too many tokens'' (str_lower etxt))"

definition retried :: "response \<Rightarrow> bool" where
  "retried r = (failure_text r \<noteq> None \<and> \<not> payload_too_large r)"

definition scripted :: "response list \<Rightarrow> world" where
  \<comment> \<open>an upstream that follows the script, with no model listed, the first key always
      drawn and no jitter\<close>
  "scripted rs = \<lparr>models = [], replies = rs, choices = [], jitters = []\<rparr>"

section \<open>The module state: queue, result store and worker tasks\<close>

text \<open>
  A queue item is the tuple \<open>(request_id, message, priority)\<close>. A result entry is the
  dictionary stored under a request id; a key the dictionary may lack (\<open>queued_at\<close>,
  \<open>error_type\<close>, \<open>completed_at\<close>) is an option, and so is a value that may be \<open>None\<close>
  (\<open>result\<close>, \<open>error\<close>). The four values of \<open>"status"\<close> are \<open>"queued"\<close>, \<open>"completed"\<close>,
  \<open>"error"\<close> and \<open>"timeout"\<close>. Timestamps (\<open>datetime.now()\<close>) are microseconds.
\<close>

type_synonym request = "string \<times> string \<times> int"

datatype status = Queued | Completed | Error | Timeout

record result_record =
  status :: status
  queued_at :: "int option"
  result :: "(string \<times> nat) option"
  error :: "string option"
  error_type :: "string option"
  completed_at :: "int option"

text \<open>
  A task created from \<open>queue_worker()\<close> is where its coroutine stands: created and not yet
  run, waiting in \<open>request_queue.get()\<close>, between the \<open>get\<close> and the write of the result
  (inside \<open>process_prompt_direct\<close>) with the item it took, in the pause
  \<open>asyncio.sleep(0.5)\<close> after a request, or ended by a cancellation.
\<close>

datatype worker = Created | Getting | Processing request | Pausing real | Stopped

text \<open>
  The log lines that name a request, as the logger receives them: the queue is full,
  a request was added, the worker is processing a request, a request completed, a request
  failed, a waiting caller's request timed out.
\<close>

datatype log_line =
    QueueFull
  | Added string
  | ProcessingRequest string
  | CompletedOk string
  | FailedWith string
  | TimedOut string

record state =
  current_queue_size :: int
  request_queue :: "request list"
  request_results :: "string \<rightharpoonup> result_record"
  queue_worker_running :: bool
  queue_worker_task :: "nat option"
  workers :: "worker list"
  logged :: "log_line list"

definition init_state :: state where
  \<comment> \<open>the globals as the module's import leaves them\<close>
  "init_state =
     \<lparr>current_queue_size = 0, request_queue = [], request_results = Map.empty,
      queue_worker_running = False, queue_worker_task = None, workers = [], logged = []\<rparr>"

subsection \<open>\<open>process_prompt\<close>: admission\<close>

definition make_request_id :: "int \<Rightarrow> int \<Rightarrow> string" where
  \<comment> \<open>\<open>f"req_{int(time.time())}_{random.randint(1000, 9999)}"\<close>\<close>
  "make_request_id t rnd = ''req_'' @ str_int t @ ''_'' @ str_int rnd"

definition queue_full_message :: string where
  "queue_full_message = ''Tizim hozir juda band. Iltimos, keyinroq qayta urinib ko'ring.''"

definition start_worker_on_demand :: "state \<Rightarrow> state" where
  \<comment> \<open>\<open>asyncio.create_task(queue_worker())\<close> unless a worker runs or a task was created\<close>
  "start_worker_on_demand st =
     (if \<not> queue_worker_running st \<and> queue_worker_task st = None
      then st\<lparr>queue_worker_task := Some (length (workers st)),
              workers := workers st @ [Created]\<rparr>
      else st)"

definition process_prompt_admit :: "state \<Rightarrow> int \<Rightarrow> int \<Rightarrow> int \<Rightarrow> string \<Rightarrow> int \<Rightarrow> (exn + string) \<times> state" where
  \<comment> \<open>\<open>process_prompt\<close> up to the test of \<open>wait_for_result\<close>. \<open>t\<close> is \<open>int(time.time())\<close>,
      \<open>rnd\<close> the value of \<open>random.randint(1000, 9999)\<close>, \<open>now\<close> the clock at \<open>queued_at\<close>.\<close>
  "process_prompt_admit st t rnd now message priority =
     (let st1 = start_worker_on_demand st;
          request_id = make_request_id t rnd
      in if current_queue_size st1 \<ge> MAX_QUEUE_SIZE
         then (Inl (OverflowError, queue_full_message), st1\<lparr>logged := logged st1 @ [QueueFull]\<rparr>)
         else (Inr request_id,
               st1\<lparr>current_queue_size := current_queue_size st1 + 1,
                    request_queue := request_queue st1 @ [(request_id, message, priority)],
                    logged := logged st1 @ [Added request_id],
                    request_results := (request_results st1)(request_id \<mapsto>
                      \<lparr>status = Queued, queued_at = Some now, result = None, error = None,
                       error_type = None, completed_at = None\<rparr>)\<rparr>))"

subsection \<open>\<open>process_prompt\<close>: one turn of the wait loop, and its timeout\<close>

definition delivered :: "result_record \<Rightarrow> exn + (string \<times> nat) option" where
  \<comment> \<open>what the caller gets from an entry whose status is completed or error\<close>
  "delivered d =
     (if status d = Error then
        (let error_type = (case error_type d of Some n \<Rightarrow> n | None \<Rightarrow> ''RuntimeError'');
             error_message = (case error d of Some m \<Rightarrow> m | None \<Rightarrow> ''None'')
         in if error_type = ''ValueError'' then Inl (ValueError, error_message)
            else if error_type = ''OverflowError'' then Inl (OverflowError, error_message)
            else if error_type = ''TimeoutError'' then Inl (TimeoutError, error_message)
            else Inl (RuntimeError, error_message))
      else Inr (result d))"

definition poll_result :: "state \<Rightarrow> string \<Rightarrow> (exn + (string \<times> nat) option) option \<times> state" where
  \<comment> \<open>the body of the \<open>while\<close> up to the \<open>sleep\<close>: \<open>None\<close> when the loop goes on\<close>
  "poll_result st request_id =
     (case request_results st request_id of
        None \<Rightarrow> (None, st)
      | Some d \<Rightarrow>
          if status d = Completed \<or> status d = Error
          then (Some (delivered d),
                st\<lparr>request_results := (request_results st)(request_id := None)\<rparr>)
          else (None, st))"

definition wait_timeout_message :: "int \<Rightarrow> string" where
  "wait_timeout_message timeout =
     ''So'rov vaqti tugadi ('' @ str_int timeout @
     '' soniya). Iltimos, keyinroq qayta urinib ko'ring.''"

definition wait_timeout :: "state \<Rightarrow> string \<Rightarrow> int \<Rightarrow> exn \<times> state" where
  \<comment> \<open>the code after the \<open>while\<close>: mark the entry, if there is one, and raise\<close>
  "wait_timeout st request_id timeout =
     ((TimeoutError, wait_timeout_message timeout),
      (case request_results st request_id of
         None \<Rightarrow> st\<lparr>logged := logged st @ [TimedOut request_id]\<rparr>
       | Some d \<Rightarrow>
           st\<lparr>logged := logged st @ [TimedOut request_id],
              request_results := (request_results st)(request_id \<mapsto> d\<lparr>status := Timeout\<rparr>)\<rparr>))"

subsection \<open>\<open>queue_worker\<close>\<close>

definition worker_start :: "state \<Rightarrow> nat \<Rightarrow> state" where
  \<comment> \<open>the task runs for the first time, up to its first \<open>get\<close>\<close>
  "worker_start st i =
     (if i < length (workers st) \<and> workers st ! i = Created
      then st\<lparr>queue_worker_running := True, workers := (workers st)[i := Getting]\<rparr>
      else st)"

definition worker_take :: "state \<Rightarrow> nat \<Rightarrow> state" where
  \<comment> \<open>\<open>request_queue.get()\<close> returns the oldest item; \<open>current_queue_size -= 1\<close>\<close>
  "worker_take st i =
     (if i < length (workers st) \<and> workers st ! i = Getting then
        (case request_queue st of
           [] \<Rightarrow> st
         | r # rest \<Rightarrow>
             st\<lparr>request_queue := rest,
                current_queue_size := current_queue_size st - 1,
                logged := logged st @ [ProcessingRequest (fst r)],
                workers := (workers st)[i := Processing r]\<rparr>)
      else st)"

definition stored_record :: "outcome \<Rightarrow> int \<Rightarrow> result_record" where
  "stored_record out now =
     (case out of
        Returned r \<Rightarrow>
          \<lparr>status = Completed, queued_at = None, result = r, error = None,
           error_type = None, completed_at = Some now\<rparr>
      | Raised e \<Rightarrow>
          \<lparr>status = Error, queued_at = None, result = None, error = Some (snd e),
           error_type = Some (exc_name (fst e)), completed_at = Some now\<rparr>)"

definition stored_line :: "outcome \<Rightarrow> string \<Rightarrow> log_line" where
  "stored_line out request_id =
     (case out of Returned r \<Rightarrow> CompletedOk request_id | Raised e \<Rightarrow> FailedWith request_id)"

definition worker_store :: "string list \<Rightarrow> state \<Rightarrow> nat \<Rightarrow> world \<Rightarrow> int \<Rightarrow> state" where
  \<comment> \<open>\<open>process_prompt_direct(message)\<close> has ended: store what it returned or raised, then
      pause\<close>
  "worker_store api_keys st i w now =
     (if i < length (workers st) then
        (case workers st ! i of
           Processing r \<Rightarrow>
             (let out = fst (process_prompt_direct w api_keys (fst (snd r)))
              in st\<lparr>request_results := (request_results st)(fst r \<mapsto> stored_record out now),
                    logged := logged st @ [stored_line out (fst r)],
                    workers := (workers st)[i := Pausing (1 / 2)]\<rparr>)
         | _ \<Rightarrow> st)
      else st)"

definition worker_resume :: "state \<Rightarrow> nat \<Rightarrow> state" where
  \<comment> \<open>the pause is over: back to the head of the loop\<close>
  "worker_resume st i =
     (if i < length (workers st) then
        (case workers st ! i of
           Pausing d \<Rightarrow> st\<lparr>workers := (workers st)[i := Getting]\<rparr>
         | _ \<Rightarrow> st)
      else st)"

definition worker_cancel :: "state \<Rightarrow> nat \<Rightarrow> state" where
  \<comment> \<open>\<open>CancelledError\<close> at an \<open>await\<close> of the loop: \<open>break\<close>, then the \<open>finally\<close>\<close>
  "worker_cancel st i =
     (if i < length (workers st) \<and> workers st ! i \<noteq> Created \<and> workers st ! i \<noteq> Stopped
      then st\<lparr>queue_worker_running := False, workers := (workers st)[i := Stopped]\<rparr>
      else st)"

subsection \<open>\<open>cleanup_old_results\<close>\<close>

definition stale :: "int \<Rightarrow> result_record \<Rightarrow> bool" where
  "stale now d =
     (case completed_at d of
        Some c \<Rightarrow> now - c > 3600 * 1000000
      | None \<Rightarrow>
          (case queued_at d of
             Some q \<Rightarrow> now - q > 7200 * 1000000
           | None \<Rightarrow> False))"

definition cleanup_old_results :: "state \<Rightarrow> int \<Rightarrow> state" where
  \<comment> \<open>one pass of the reaper's loop\<close>
  "cleanup_old_results st now =
     st\<lparr>request_results :=
          (\<lambda>k. case request_results st k of
                 None \<Rightarrow> None
               | Some d \<Rightarrow> if stale now d then None else Some d)\<rparr>"

subsection \<open>Runs of the module\<close>

text \<open>
  The tasks of the event loop interleave at their \<open>await\<close>s only; between two of them a
  task runs alone. An event is one such uninterrupted piece of a task: a caller's
  admission, a step of a worker task, a waiting caller's look at the store or its
  timeout, a pass of the reaper. A run is a sequence of events; an event that cannot
  happen in a state (a \<open>get\<close> on an empty queue, a step of a task that is not there)
  leaves the state as it is. Worker tasks are created by \<open>process_prompt\<close> only:
  \<open>start_queue_worker\<close>, \<open>start_cleanup_task\<close> and \<open>initialize\<close> are called nowhere in the
  repository. The loop of \<open>queue_worker\<close> raises nothing outside its inner \<open>try\<close>, so its
  outer handler (a sleep of one second) is never entered.
\<close>

datatype event =
    Submit int int int string int
  | WorkerStart nat
  | WorkerTake nat
  | WorkerStore nat world int
  | WorkerResume nat
  | WorkerCancel nat
  | Poll string
  | GiveUp string int
  | Cleanup int

fun step :: "string list \<Rightarrow> state \<Rightarrow> event \<Rightarrow> state" where
  "step api_keys st (Submit t rnd now message priority) =
     snd (process_prompt_admit st t rnd now message priority)"
| "step api_keys st (WorkerStart i) = worker_start st i"
| "step api_keys st (WorkerTake i) = worker_take st i"
| "step api_keys st (WorkerStore i w now) = worker_store api_keys st i w now"
| "step api_keys st (WorkerResume i) = worker_resume st i"
| "step api_keys st (WorkerCancel i) = worker_cancel st i"
| "step api_keys st (Poll request_id) = snd (poll_result st request_id)"
| "step api_keys st (GiveUp request_id timeout) = snd (wait_timeout st request_id timeout)"
| "step api_keys st (Cleanup now) = cleanup_old_results st now"

definition run :: "string list \<Rightarrow> state \<Rightarrow> event list \<Rightarrow> state" where
  "run api_keys st evs = foldl (step api_keys) st evs"

subsection \<open>\<open>process_prompt\<close> as a whole\<close>

text \<open>
  The wait loop of a caller: \<open>others\<close> lists, for each \<open>await asyncio.sleep(0.5)\<close> of the
  loop, the events of the other tasks during that sleep; it has as many elements as the
  clock lets the loop make turns before \<open>timeout\<close> seconds have passed.
\<close>

fun wait_loop :: "string list \<Rightarrow> string \<Rightarrow> int \<Rightarrow> event list list \<Rightarrow> state \<Rightarrow> (exn + (string \<times> nat) option) \<times> state" where
  "wait_loop api_keys request_id timeout [] st =
     (case wait_timeout st request_id timeout of (e, st') \<Rightarrow> (Inl e, st'))"
| "wait_loop api_keys request_id timeout (evs # others) st =
     (case poll_result st request_id of
        (Some r, st') \<Rightarrow> (r, st')
      | (None, st') \<Rightarrow> wait_loop api_keys request_id timeout others (run api_keys st' evs))"

datatype reply = RequestId string | Result "(string \<times> nat) option"

definition process_prompt :: "string list \<Rightarrow> state \<Rightarrow> int \<Rightarrow> int \<Rightarrow> int \<Rightarrow> string \<Rightarrow> int \<Rightarrow> bool \<Rightarrow> int \<Rightarrow> event list list \<Rightarrow> (exn + reply) \<times> state" where
  "process_prompt api_keys st t rnd now message priority wait_for_result timeout others =
     (case process_prompt_admit st t rnd now message priority of
        (Inl e, st1) \<Rightarrow> (Inl e, st1)
      | (Inr request_id, st1) \<Rightarrow>
          if \<not> wait_for_result then (Inr (RequestId request_id), st1)
          else
            (case wait_loop api_keys request_id timeout others st1 of
               (Inl e, st2) \<Rightarrow> (Inl e, st2)
             | (Inr r, st2) \<Rightarrow> (Inr (Result r), st2)))"

section \<open>The concurrency limiter: \<open>request_semaphore\<close>\<close>

text \<open>
  Calls of \<open>process_prompt_direct\<close> that run at the same time are tasks of the event loop,
  each with the actions it has still to perform. The semaphore is its counter:
  \<open>Acquire\<close> needs a positive counter and decrements it (a task that finds it zero
  waits), \<open>Release\<close> increments it. A schedule names the task that moves next. A task
  holds a permit from its \<open>Acquire\<close> to its \<open>Release\<close>: while the \<open>Release\<close> is among the
  actions it has still to perform and the \<open>Acquire\<close> no longer is.
\<close>

fun sem_step :: "nat \<times> effect list list \<Rightarrow> nat \<Rightarrow> nat \<times> effect list list" where
  "sem_step (v, ts) i =
     (if i < length ts then
        (case ts ! i of
           [] \<Rightarrow> (v, ts)
         | Acquire # rest \<Rightarrow> if 0 < v then (v - 1, ts[i := rest]) else (v, ts)
         | Release # rest \<Rightarrow> (v + 1, ts[i := rest])
         | e # rest \<Rightarrow> (v, ts[i := rest]))
      else (v, ts))"

definition holding :: "effect list \<Rightarrow> bool" where
  "holding t = (Release \<in> set t \<and> Acquire \<notin> set t)"

definition outstanding :: "effect list list \<Rightarrow> nat" where
  "outstanding ts = length (filter holding ts)"

definition direct_calls :: "string list \<Rightarrow> (world \<times> string) list \<Rightarrow> effect list list" where
  "direct_calls api_keys calls =
     map (\<lambda>c. snd (process_prompt_direct (fst c) api_keys (snd c))) calls"

definition sem_run :: "string list \<Rightarrow> (world \<times> string) list \<Rightarrow> nat list \<Rightarrow> nat \<times> effect list list" where
  "sem_run api_keys calls schedule =
     foldl sem_step (MAX_CONCURRENT_REQUESTS api_keys, direct_calls api_keys calls) schedule"

section \<open>Start-up: the environment, the keys and \<open>run.py\<close>\<close>

text \<open>
  The environment after \<open>load_dotenv()\<close> is a map from variable names to values;
  \<open>os.getenv\<close> is its lookup, and a value is used when it is there and not empty. The
  module reads \<open>GEMINI_API_KEY\<close> and then \<open>GEMINI_API_KEY_1\<close>, \<open>GEMINI_API_KEY_2\<close>, ... up to
  the first that is missing.
\<close>

type_synonym environ = "string \<rightharpoonup> string"

definition truthy :: "string option \<Rightarrow> bool" where
  "truthy v = (case v of None \<Rightarrow> False | Some s \<Rightarrow> s \<noteq> [])"

partial_function (option) load_numbered_keys :: "environ \<Rightarrow> nat \<Rightarrow> string list \<Rightarrow> string list option" where
  "load_numbered_keys env i api_keys =
     (case env (''GEMINI_API_KEY_'' @ str_nat i) of
        None \<Rightarrow> Some api_keys
      | Some key \<Rightarrow>
          if key \<noteq> [] then load_numbered_keys env (i + 1) (api_keys @ [key])
          else Some api_keys)"

definition load_api_keys :: "environ \<Rightarrow> string list option" where
  "load_api_keys env =
     load_numbered_keys env 1
       (case env ''GEMINI_API_KEY'' of
          None \<Rightarrow> []
        | Some main_api_key \<Rightarrow> if main_api_key \<noteq> [] then [main_api_key] else [])"

definition required_vars :: "string list" where
  "required_vars = [''TELEGRAM_TOKEN'', ''GEMINI_API_KEY'']"

definition missing_vars :: "environ \<Rightarrow> string list" where
  "missing_vars env = filter (\<lambda>var. \<not> truthy (env var)) required_vars"

text \<open>
  \<open>main\<close> of \<open>run.py\<close>: with a required variable missing it logs the error and returns 1
  before the bot module, and with it \<open>gemini_utils\<close>, is imported; otherwise the import
  loads the keys and the bot runs on the module's initial state. The result is the exit
  status of a refused start (\<open>Inl\<close>) or the keys and the state the bot starts with
  (\<open>Inr\<close>).
\<close>

definition main :: "environ \<Rightarrow> (int + string list \<times> state) option" where
  "main env =
     (if missing_vars env \<noteq> [] then Some (Inl 1)
      else
        (case load_api_keys env of
           None \<Rightarrow> None
         | Some api_keys \<Rightarrow> Some (Inr (api_keys, init_state))))"

section \<open>Auxiliary notions for the statements and the invariants\<close>

text \<open>
  The request ids the log names, in the order of the log: those added to the queue, those
  a worker began to process, and those a worker finished (completed or failed). A request
  is in flight while a worker task stands between its \<open>get\<close> and the write of the
  result.
\<close>

fun added_id :: "log_line \<Rightarrow> string list" where
  "added_id (Added request_id) = [request_id]"
| "added_id l = []"

fun started_id :: "log_line \<Rightarrow> string list" where
  "started_id (ProcessingRequest request_id) = [request_id]"
| "started_id l = []"

fun finished_id :: "log_line \<Rightarrow> string list" where
  "finished_id (CompletedOk request_id) = [request_id]"
| "finished_id (FailedWith request_id) = [request_id]"
| "finished_id l = []"

definition admitted_ids :: "state \<Rightarrow> string list" where
  "admitted_ids st = concat (map added_id (logged st))"

definition started_ids :: "state \<Rightarrow> string list" where
  "started_ids st = concat (map started_id (logged st))"

definition finished_ids :: "state \<Rightarrow> string list" where
  "finished_ids st = concat (map finished_id (logged st))"

fun is_processing :: "worker \<Rightarrow> bool" where
  "is_processing (Processing r) = True"
| "is_processing w = False"

definition in_flight :: "state \<Rightarrow> nat" where
  "in_flight st = length (filter is_processing (workers st))"

text \<open>
  For the wait loop of a caller: an entry is ready when it is there with status
  \<open>completed\<close> or \<open>error\<close>; \<open>turn_state\<close> is the state the loop finds at its \<open>k\<close>-th look
  (counted from 0), after the other tasks' events of the sleeps before it. And the texts
  of a last error that the final categorisation turns into \<open>TimeoutError\<close>: none of
  "overloaded", "rate limit", "quota" occurs in the lowered text, and "timeout" or
  "deadline" does.
\<close>

definition ready :: "state \<Rightarrow> string \<Rightarrow> bool" where
  "ready st request_id =
     (case request_results st request_id of
        None \<Rightarrow> False
      | Some d \<Rightarrow> status d = Completed \<or> status d = Error)"

fun turn_state :: "string list \<Rightarrow> event list list \<Rightarrow> state \<Rightarrow> nat \<Rightarrow> state" where
  "turn_state api_keys others st 0 = st"
| "turn_state api_keys [] st (Suc k) = st"
| "turn_state api_keys (evs # others) st (Suc k) =
     turn_state api_keys others (run api_keys st evs) k"

definition categorised_timeout :: "string \<Rightarrow> bool" where
  "categorised_timeout err =
     (let error_message = str_lower err in
      \<not> (str_in ''overloaded'' error_message \<or> str_in ''rate limit'' error_message \<or>
         str_in ''quota'' error_message) \<and>
      (str_in ''timeout'' error_message \<or> str_in ''deadline'' error_message))"

text \<open>
  The shape of the actions a call of \<open>process_prompt_direct\<close> has still to perform: all of
  them (the call has not acquired its permit), those after the \<open>Acquire\<close> (it holds the
  permit), or none.
\<close>

definition no_semaphore :: "effect list \<Rightarrow> bool" where
  "no_semaphore b = (Acquire \<notin> set b \<and> Release \<notin> set b)"

definition pending :: "effect list \<Rightarrow> bool" where
  "pending t = (\<exists>b. t = Acquire # b @ [Release] \<and> no_semaphore b)"

definition inside :: "effect list \<Rightarrow> bool" where
  "inside t = (\<exists>b. t = b @ [Release] \<and> no_semaphore b)"

definition call_shape :: "effect list \<Rightarrow> bool" where
  "call_shape t = (pending t \<or> inside t \<or> t = [])"

definition sem_inv :: "nat \<Rightarrow> nat \<times> effect list list \<Rightarrow> bool" where
  "sem_inv m s = ((\<forall>t \<in> set (snd s). call_shape t) \<and> fst s + outstanding (snd s) = m)"

text \<open>
  The invariant of the runs: at most one worker task exists, and it is the one
  \<open>_queue_worker_task\<close> remembers; the requests added are those the worker began,
  followed by those still queued; the requests begun are those finished, followed by at
  most the one in flight.
\<close>

fun unfinished :: "worker list \<Rightarrow> string list \<Rightarrow> bool" where
  "unfinished [] rest = (rest = [])"
| "unfinished (Processing r # ws) rest = (rest = [fst r])"
| "unfinished (Stopped # ws) rest = (length rest \<le> 1)"
| "unfinished (w # ws) rest = (rest = [])"

definition worker_inv :: "state \<Rightarrow> bool" where
  "worker_inv st =
     (length (workers st) \<le> 1 \<and>
      (workers st \<noteq> [] \<longrightarrow> queue_worker_task st \<noteq> None) \<and>
      admitted_ids st = started_ids st @ map fst (request_queue st) \<and>
      (\<exists>rest. started_ids st = finished_ids st @ rest \<and> unfinished (workers st) rest))"

section \<open>Properties of the retry coordinator\<close>

subsection \<open>Auxiliary facts\<close>

lemma try_attempt_generates:
  "upstream_attempts (snd (try_attempt w api_keys message k)) \<le> 1"
  by (auto simp: try_attempt_def upstream_attempts_def get_random_api_key_def Let_def
           split: response.splits)

lemma attempts_bound:
  "upstream_attempts (snd (attempts w api_keys message k)) \<le> MAX_RETRIES - k"
proof (induction w api_keys message k rule: attempts.induct)
  case (1 w api_keys message k)
  show ?case
  proof (cases "k < MAX_RETRIES")
    case False
    then show ?thesis
      by (simp add: attempts.simps [of w api_keys message k] upstream_attempts_def)
  next
    case True
    obtain r effs where t: "try_attempt w api_keys message k = (r, effs)"
      by (cases "try_attempt w api_keys message k")
    have e: "upstream_attempts effs \<le> 1"
      using try_attempt_generates [of w api_keys message k] t by simp
    show ?thesis
    proof (cases r)
      case (Inr answer)
      with True t e show ?thesis
        by (simp add: attempts.simps [of w api_keys message k])
    next
      case (Inl err)
      show ?thesis
      proof (cases "\<not> str_in ''too many tokens'' (str_lower err) \<and> k + 1 < MAX_RETRIES \<and> api_keys \<noteq> []")
        case False
        with True t e Inl show ?thesis
          by (auto simp: attempts.simps [of w api_keys message k] get_random_api_key_def)
      next
        case c: True
        obtain key where key: "get_random_api_key api_keys (choice_at w (2 * k + 1)) = Inr key"
          using c by (auto simp: get_random_api_key_def)
        obtain out effs' where rec: "attempts w api_keys message (k + 1) = (out, effs')"
          by (cases "attempts w api_keys message (k + 1)")
        have ih: "upstream_attempts effs' \<le> MAX_RETRIES - (k + 1)"
          using "1.IH" [of r effs err key] True t Inl c key rec by simp
        show ?thesis
          using True t e Inl c key rec ih
          by (auto simp: attempts.simps [of w api_keys message k] upstream_attempts_def)
      qed
    qed
  qed
qed


lemma try_attempt_failure:
  assumes "api_keys \<noteq> []" and "failure_text (reply_at w k) = Some etxt"
  shows "\<exists>pre. try_attempt w api_keys message k =
                 (Inl etxt, pre @ [Generate (model_name_for w k) message]) \<and>
               upstream_attempts pre = 0"
proof -
  let ?key = "api_keys ! (choice_at w (2 * k) mod length api_keys)"
  let ?pre = "[Configure ?key] @ (if k = 0 then [ListModels] else [])"
  have "try_attempt w api_keys message k =
          (Inl etxt, ?pre @ [Generate (model_name_for w k) message])"
    using assms
    by (cases "reply_at w k")
       (simp_all add: try_attempt_def get_random_api_key_def failure_text_def Let_def)
  moreover have "upstream_attempts ?pre = 0"
    by (simp add: upstream_attempts_def)
  ultimately show ?thesis by blast
qed

lemma try_attempt_text:
  assumes "api_keys \<noteq> []" and "reply_at w k = Text answer"
  shows "\<exists>pre. try_attempt w api_keys message k =
                 (Inr answer, pre @ [Generate (model_name_for w k) message]) \<and>
               upstream_attempts pre = 0"
proof -
  let ?key = "api_keys ! (choice_at w (2 * k) mod length api_keys)"
  let ?pre = "[Configure ?key] @ (if k = 0 then [ListModels] else [])"
  have "try_attempt w api_keys message k =
          (Inr answer, ?pre @ [Generate (model_name_for w k) message])"
    using assms by (simp add: try_attempt_def get_random_api_key_def Let_def)
  moreover have "upstream_attempts ?pre = 0"
    by (simp add: upstream_attempts_def)
  ultimately show ?thesis by blast
qed

lemma attempts_skip:
  assumes keys: "api_keys \<noteq> []" and j: "j < MAX_RETRIES"
  shows "k \<le> j \<Longrightarrow> (\<forall>i. k \<le> i \<and> i < j \<longrightarrow> retried (reply_at w i)) \<Longrightarrow>
         \<exists>pre. attempts w api_keys message k =
                 (fst (attempts w api_keys message j),
                  pre @ snd (attempts w api_keys message j)) \<and>
               upstream_attempts pre = j - k"
proof (induction "j - k" arbitrary: k)
  case 0
  then have "k = j" by simp
  then have "attempts w api_keys message k =
               (fst (attempts w api_keys message j), [] @ snd (attempts w api_keys message j)) \<and>
             upstream_attempts [] = j - k"
    by (simp add: upstream_attempts_def)
  then show ?case by blast
next
  case (Suc d)
  then have lt: "k < j" and d: "d = j - (k + 1)" by simp_all
  from Suc.prems lt have "retried (reply_at w k)" by simp
  then obtain etxt where etxt: "failure_text (reply_at w k) = Some etxt"
    and small: "\<not> str_in ''too many tokens'' (str_lower etxt)"
    by (auto simp: retried_def payload_too_large_def split: option.splits)
  from try_attempt_failure [OF keys etxt, of message] obtain pre
    where t: "try_attempt w api_keys message k =
                (Inl etxt, pre @ [Generate (model_name_for w k) message])"
      and n: "upstream_attempts pre = 0"
    by blast
  have "\<exists>pre'. attempts w api_keys message (k + 1) =
                 (fst (attempts w api_keys message j),
                  pre' @ snd (attempts w api_keys message j)) \<and>
               upstream_attempts pre' = j - (k + 1)"
    using Suc.hyps(1) [OF d] lt Suc.prems(2) by simp
  then obtain pre' where rec: "attempts w api_keys message (k + 1) =
        (fst (attempts w api_keys message j), pre' @ snd (attempts w api_keys message j))"
    and n': "upstream_attempts pre' = j - (k + 1)"
    by blast
  let ?key = "api_keys ! (choice_at w (2 * k + 1) mod length api_keys)"
  let ?mid = "[Configure ?key, Sleep (BASE_DELAY * 2 ^ (k + 1 - 1) + jitter_at w k)]"
  let ?all = "pre @ [Generate (model_name_for w k) message] @ ?mid @ pre'"
  have "attempts w api_keys message k =
          (fst (attempts w api_keys message j), ?all @ snd (attempts w api_keys message j))"
    using j lt t small keys rec
    by (simp add: attempts.simps [of w api_keys message k] get_random_api_key_def)
  moreover have "upstream_attempts ?all = j - k"
    using n n' lt by (simp add: upstream_attempts_def)
  ultimately show ?case by blast
qed

lemma attempts_at_payload:
  assumes keys: "api_keys \<noteq> []" and j: "j < MAX_RETRIES"
    and ptl: "payload_too_large (reply_at w j)"
  shows "\<exists>pre m. attempts w api_keys message j =
                   (Raised (ValueError, ''Too many tokens to make completion''),
                    pre @ [Generate m message]) \<and>
                 upstream_attempts pre = 0"
proof -
  from ptl obtain etxt where etxt: "failure_text (reply_at w j) = Some etxt"
    and big: "str_in ''too many tokens'' (str_lower etxt)"
    by (auto simp: payload_too_large_def split: option.splits)
  from try_attempt_failure [OF keys etxt, of message] obtain pre
    where t: "try_attempt w api_keys message j =
                (Inl etxt, pre @ [Generate (model_name_for w j) message])"
      and n: "upstream_attempts pre = 0"
    by blast
  have "attempts w api_keys message j =
          (Raised (ValueError, ''Too many tokens to make completion''),
           pre @ [Generate (model_name_for w j) message])"
    using j t big by (simp add: attempts.simps [of w api_keys message j])
  with n show ?thesis by blast
qed

lemma attempts_at_text:
  assumes keys: "api_keys \<noteq> []" and j: "j < MAX_RETRIES"
    and ok: "reply_at w j = Text answer"
  shows "\<exists>pre m. attempts w api_keys message j =
                   (Returned (Some (answer, length message div 4 + length answer div 4)),
                    pre @ [Generate m message]) \<and>
                 upstream_attempts pre = 0"
proof -
  from try_attempt_text [OF keys ok, of message] obtain pre
    where t: "try_attempt w api_keys message j =
                (Inr answer, pre @ [Generate (model_name_for w j) message])"
      and n: "upstream_attempts pre = 0"
    by blast
  have "attempts w api_keys message j =
          (Returned (Some (answer, length message div 4 + length answer div 4)),
           pre @ [Generate (model_name_for w j) message])"
    using j t by (simp add: attempts.simps [of w api_keys message j])
  with n show ?thesis by blast
qed

lemmas eval_direct =
  process_prompt_direct_def attempts.simps try_attempt_def get_random_api_key_def
  reply_at_def choice_at_def jitter_at_def model_name_for_def list_available_models_def
  preferred_models_def
  final_error_def str_lower_def lower_char_def MAX_RETRIES_def BASE_DELAY_def
  upstream_attempts_def scripted_def Let_def

lemma attempts_tokens:
  "fst (attempts w api_keys message k) = Returned (Some (answer, n)) \<Longrightarrow>
     n = length message div 4 + length answer div 4"
proof (induction w api_keys message k rule: attempts.induct)
  case (1 w api_keys message k)
  show ?case
  proof (cases "k < MAX_RETRIES")
    case False
    with "1.prems" show ?thesis
      by (simp add: attempts.simps [of w api_keys message k])
  next
    case True
    obtain r effs where t: "try_attempt w api_keys message k = (r, effs)"
      by (cases "try_attempt w api_keys message k")
    show ?thesis
    proof (cases r)
      case (Inr a)
      with True t "1.prems" show ?thesis
        by (auto simp: attempts.simps [of w api_keys message k])
    next
      case (Inl err)
      show ?thesis
      proof (cases "\<not> str_in ''too many tokens'' (str_lower err) \<and> k + 1 < MAX_RETRIES \<and> api_keys \<noteq> []")
        case False
        with True t Inl "1.prems" show ?thesis
          by (auto simp: attempts.simps [of w api_keys message k] get_random_api_key_def
                   split: if_splits)
      next
        case c: True
        obtain key where key: "get_random_api_key api_keys (choice_at w (2 * k + 1)) = Inr key"
          using c by (auto simp: get_random_api_key_def)
        obtain out effs' where rec: "attempts w api_keys message (k + 1) = (out, effs')"
          by (cases "attempts w api_keys message (k + 1)")
        have "out = Returned (Some (answer, n))"
          using True t Inl c key rec "1.prems"
          by (auto simp: attempts.simps [of w api_keys message k])
        then show ?thesis
          using "1.IH" [of r effs err key] True t Inl c key rec by simp
      qed
    qed
  qed
qed


lemma attempts_no_semaphore:
  "Acquire \<notin> set (snd (attempts w api_keys message k)) \<and>
   Release \<notin> set (snd (attempts w api_keys message k))"
proof (induction w api_keys message k rule: attempts.induct)
  case (1 w api_keys message k)
  show ?case
  proof (cases "k < MAX_RETRIES")
    case False
    then show ?thesis
      by (simp add: attempts.simps [of w api_keys message k])
  next
    case True
    obtain r effs where t: "try_attempt w api_keys message k = (r, effs)"
      by (cases "try_attempt w api_keys message k")
    have e: "Acquire \<notin> set effs \<and> Release \<notin> set effs"
      using t
      by (auto simp: try_attempt_def get_random_api_key_def Let_def
               split: response.splits if_splits)
    show ?thesis
    proof (cases r)
      case (Inr answer)
      with True t e show ?thesis
        by (simp add: attempts.simps [of w api_keys message k])
    next
      case (Inl err)
      show ?thesis
      proof (cases "\<not> str_in ''too many tokens'' (str_lower err) \<and> k + 1 < MAX_RETRIES \<and> api_keys \<noteq> []")
        case False
        with True t e Inl show ?thesis
          by (auto simp: attempts.simps [of w api_keys message k] get_random_api_key_def)
      next
        case c: True
        obtain key where key: "get_random_api_key api_keys (choice_at w (2 * k + 1)) = Inr key"
          using c by (auto simp: get_random_api_key_def)
        obtain out effs' where rec: "attempts w api_keys message (k + 1) = (out, effs')"
          by (cases "attempts w api_keys message (k + 1)")
        have ih: "Acquire \<notin> set effs' \<and> Release \<notin> set effs'"
          using "1.IH" [of r effs err key] True t Inl c key rec by simp
        show ?thesis
          using True t e Inl c key rec ih
          by (auto simp: attempts.simps [of w api_keys message k])
      qed
    qed
  qed
qed

lemma attempts_timeout_message:
  "fst (attempts w api_keys message k) = Raised (TimeoutError, m) \<Longrightarrow>
     m = ''Request to the model timed out. Please try again.''"
proof (induction w api_keys message k rule: attempts.induct)
  case (1 w api_keys message k)
  show ?case
  proof (cases "k < MAX_RETRIES")
    case False
    with "1.prems" show ?thesis
      by (simp add: attempts.simps [of w api_keys message k])
  next
    case True
    obtain r effs where t: "try_attempt w api_keys message k = (r, effs)"
      by (cases "try_attempt w api_keys message k")
    show ?thesis
    proof (cases r)
      case (Inr a)
      with True t "1.prems" show ?thesis
        by (auto simp: attempts.simps [of w api_keys message k])
    next
      case (Inl err)
      show ?thesis
      proof (cases "\<not> str_in ''too many tokens'' (str_lower err) \<and> k + 1 < MAX_RETRIES \<and> api_keys \<noteq> []")
        case False
        with True t Inl "1.prems" show ?thesis
          by (auto simp: attempts.simps [of w api_keys message k] get_random_api_key_def
                         final_error_def Let_def
                   split: if_splits)
      next
        case c: True
        obtain key where key: "get_random_api_key api_keys (choice_at w (2 * k + 1)) = Inr key"
          using c by (auto simp: get_random_api_key_def)
        obtain out effs' where rec: "attempts w api_keys message (k + 1) = (out, effs')"
          by (cases "attempts w api_keys message (k + 1)")
        have "out = Raised (TimeoutError, m)"
          using True t Inl c key rec "1.prems"
          by (auto simp: attempts.simps [of w api_keys message k])
        then show ?thesis
          using "1.IH" [of r effs err key] True t Inl c key rec by simp
      qed
    qed
  qed
qed

lemma no_keys_no_attempt:
  "process_prompt_direct w [] message =
     (Raised (ValueError, ''No Gemini API keys available''), [Acquire, Release])"
  by (simp add: process_prompt_direct_def attempts.simps [of w "[]" message 0] try_attempt_def
                get_random_api_key_def MAX_RETRIES_def str_lower_def lower_char_def)

subsection \<open>Claim C3: the retry budget, and the abort on a too-large payload\<close>

text \<open>
  As stated, the second half of C3 fails: when an earlier attempt fails in a way that is
  retried (here a rate-limit error) and the next attempt is classified as a too-large
  payload, the coordinator has made two attempts, not one, when it raises.
\<close>

theorem payload_abort_counterexample:
  "payload_too_large
     (reply_at (scripted [Raises ''429 Rate limit exceeded'',
                          Raises ''400 Too many tokens in the request'']) 1) \<and>
   fst (process_prompt_direct
          (scripted [Raises ''429 Rate limit exceeded'',
                     Raises ''400 Too many tokens in the request''])
          [''key-1''] ''hello'') =
     Raised (ValueError, ''Too many tokens to make completion'') \<and>
   upstream_attempts
     (snd (process_prompt_direct
             (scripted [Raises ''429 Rate limit exceeded'',
                        Raises ''400 Too many tokens in the request''])
             [''key-1''] ''hello'')) = 2"
  by (simp add: eval_direct payload_too_large_def failure_text_def)

text \<open>
  Claim C3, as amended. A call of \<open>process_prompt_direct\<close> makes at most \<open>MAX_RETRIES = 3\<close>
  upstream calls. When the attempts before the \<open>j\<close>-th failed and were retried, and the
  \<open>j\<close>-th fails with a text containing "too many tokens", the call raises \<open>ValueError\<close>
  at once: that attempt is the last action before the permit is released, and it is
  attempt number \<open>j + 1\<close> (the only one when \<open>j = 0\<close>).
\<close>

theorem retry_bound_and_payload_abort:
  "upstream_attempts (snd (process_prompt_direct w api_keys message)) \<le> MAX_RETRIES \<and>
   (api_keys \<noteq> [] \<and> j < MAX_RETRIES \<and> (\<forall>i<j. retried (reply_at w i)) \<and>
    payload_too_large (reply_at w j) \<longrightarrow>
      fst (process_prompt_direct w api_keys message) =
        Raised (ValueError, ''Too many tokens to make completion'') \<and>
      upstream_attempts (snd (process_prompt_direct w api_keys message)) = j + 1 \<and>
      (\<exists>pre m. snd (process_prompt_direct w api_keys message) =
                 pre @ [Generate m message, Release]))"
proof (intro conjI impI)
  obtain out effs where a: "attempts w api_keys message 0 = (out, effs)"
    by (cases "attempts w api_keys message 0")
  have "upstream_attempts effs \<le> MAX_RETRIES"
    using attempts_bound [of w api_keys message 0] a by simp
  then show "upstream_attempts (snd (process_prompt_direct w api_keys message)) \<le> MAX_RETRIES"
    using a by (simp add: process_prompt_direct_def upstream_attempts_def)
next
  assume h: "api_keys \<noteq> [] \<and> j < MAX_RETRIES \<and> (\<forall>i<j. retried (reply_at w i)) \<and>
             payload_too_large (reply_at w j)"
  then have keys: "api_keys \<noteq> []" and j: "j < MAX_RETRIES"
    and ptl: "payload_too_large (reply_at w j)"
    and pre: "\<forall>i. 0 \<le> i \<and> i < j \<longrightarrow> retried (reply_at w i)"
    by simp_all
  from attempts_skip [OF keys j _ pre, of message] obtain p1
    where s: "attempts w api_keys message 0 =
                (fst (attempts w api_keys message j), p1 @ snd (attempts w api_keys message j))"
      and n1: "upstream_attempts p1 = j"
    by auto
  from attempts_at_payload [OF keys j ptl, of message] obtain p2 m
    where l: "attempts w api_keys message j =
                (Raised (ValueError, ''Too many tokens to make completion''),
                 p2 @ [Generate m message])"
      and n2: "upstream_attempts p2 = 0"
    by blast
  have all: "process_prompt_direct w api_keys message =
               (Raised (ValueError, ''Too many tokens to make completion''),
                (Acquire # p1 @ p2) @ [Generate m message, Release])"
    using s l by (simp add: process_prompt_direct_def)
  show "fst (process_prompt_direct w api_keys message) =
          Raised (ValueError, ''Too many tokens to make completion'')"
    using all by simp
  show "upstream_attempts (snd (process_prompt_direct w api_keys message)) = j + 1"
    using all n1 n2 by (simp add: upstream_attempts_def)
  show "\<exists>pre m. snd (process_prompt_direct w api_keys message) =
                  pre @ [Generate m message, Release]"
    using all by (metis snd_conv)
qed

text \<open>The theorem at the run of the counterexample: \<open>j = 1\<close>, two attempts.\<close>

theorem retry_bound_and_payload_abort_witness:
  "payload_too_large
     (reply_at (scripted [Raises ''429 Rate limit exceeded'',
                          Raises ''400 Too many tokens in the request'']) 1) \<and>
   retried
     (reply_at (scripted [Raises ''429 Rate limit exceeded'',
                          Raises ''400 Too many tokens in the request'']) 0) \<and>
   upstream_attempts
     (snd (process_prompt_direct
             (scripted [Raises ''429 Rate limit exceeded'',
                        Raises ''400 Too many tokens in the request''])
             [''key-1''] ''hello'')) = 1 + 1"
proof -
  let ?w = "scripted [Raises ''429 Rate limit exceeded'',
                      Raises ''400 Too many tokens in the request'']"
  have p: "payload_too_large (reply_at ?w 1)"
    by (simp add: payload_too_large_def failure_text_def reply_at_def scripted_def
                  str_lower_def lower_char_def)
  have r: "retried (reply_at ?w 0)"
    by (simp add: retried_def payload_too_large_def failure_text_def reply_at_def scripted_def
                  str_lower_def lower_char_def)
  have "\<forall>i<1. retried (reply_at ?w i)"
    using r by simp
  with p r show ?thesis
    using retry_bound_and_payload_abort [of ?w "[''key-1'']" "''hello''" 1]
    by (simp add: MAX_RETRIES_def)
qed

subsection \<open>Claim C8: the token estimate\<close>

text \<open>
  As stated, C8 fails: the code divides each length by 4 and adds the quotients, so a
  3-character message answered with 1 character is estimated at 0 tokens, while
  \<open>(3 + 1) div 4 = 1\<close>.
\<close>

theorem token_estimate_counterexample:
  "fst (process_prompt_direct (scripted [Text ''d'']) [''key-1''] ''abc'') =
     Returned (Some (''d'', 0)) \<and>
   (length ''abc'' + length ''d'') div 4 = (1::nat)"
  by (simp add: eval_direct)

text \<open>
  Claim C8, as amended. The estimate returned with an answer is
  \<open>len(message) // 4 + len(answer) // 4\<close>; it never exceeds the integer quotient
  \<open>(len(message) + len(answer)) // 4\<close> and falls short of it by at most 1. And an answer
  does come back with that estimate: when the attempts before the \<open>j\<close>-th failed and were
  retried and the \<open>j\<close>-th is answered, the call returns the answer and the estimate.
\<close>

theorem token_estimate:
  "(fst (process_prompt_direct w api_keys message) = Returned (Some (answer, n)) \<longrightarrow>
      n = length message div 4 + length answer div 4 \<and>
      n \<le> (length message + length answer) div 4 \<and>
      (length message + length answer) div 4 \<le> n + 1) \<and>
   (api_keys \<noteq> [] \<and> j < MAX_RETRIES \<and> (\<forall>i<j. retried (reply_at w i)) \<and>
    reply_at w j = Text answer \<longrightarrow>
      fst (process_prompt_direct w api_keys message) =
        Returned (Some (answer, length message div 4 + length answer div 4)))"
proof (intro conjI impI)
  assume "fst (process_prompt_direct w api_keys message) = Returned (Some (answer, n))"
  then have "fst (attempts w api_keys message 0) = Returned (Some (answer, n))"
    by (simp add: process_prompt_direct_def split: prod.splits)
  then have n: "n = length message div 4 + length answer div 4"
    by (rule attempts_tokens)
  show "n = length message div 4 + length answer div 4" by (rule n)
  show "n \<le> (length message + length answer) div 4" unfolding n by arith
  show "(length message + length answer) div 4 \<le> n + 1" unfolding n by arith
next
  assume h: "api_keys \<noteq> [] \<and> j < MAX_RETRIES \<and> (\<forall>i<j. retried (reply_at w i)) \<and>
             reply_at w j = Text answer"
  then have keys: "api_keys \<noteq> []" and j: "j < MAX_RETRIES"
    and ok: "reply_at w j = Text answer"
    and pre: "\<forall>i. 0 \<le> i \<and> i < j \<longrightarrow> retried (reply_at w i)"
    by simp_all
  from attempts_skip [OF keys j _ pre, of message] obtain p1
    where s: "attempts w api_keys message 0 =
                (fst (attempts w api_keys message j), p1 @ snd (attempts w api_keys message j))"
    by auto
  from attempts_at_text [OF keys j ok, of message] obtain p2 m
    where l: "attempts w api_keys message j =
                (Returned (Some (answer, length message div 4 + length answer div 4)),
                 p2 @ [Generate m message])"
    by blast
  show "fst (process_prompt_direct w api_keys message) =
          Returned (Some (answer, length message div 4 + length answer div 4))"
    using s l by (simp add: process_prompt_direct_def)
qed

text \<open>The theorem at a call that is answered on its second attempt.\<close>

theorem token_estimate_witness:
  "fst (process_prompt_direct (scripted [NoReply, Text ''four'']) [''key-1''] ''abcdefg'') =
     Returned (Some (''four'', 2)) \<and>
   (2::nat) \<le> (length ''abcdefg'' + length ''four'') div 4"
proof -
  let ?w = "scripted [NoReply, Text ''four'']"
  have r: "\<forall>i<1. retried (reply_at ?w i)"
    by (simp add: retried_def payload_too_large_def failure_text_def reply_at_def scripted_def
                  str_lower_def lower_char_def)
  have t: "reply_at ?w 1 = Text ''four''"
    by (simp add: reply_at_def scripted_def)
  have k: "(1::nat) < MAX_RETRIES"
    by (simp add: MAX_RETRIES_def)
  note te = token_estimate [of ?w "[''key-1'']" "''abcdefg''" "''four''" 2 1]
  have "fst (process_prompt_direct ?w [''key-1''] ''abcdefg'') =
          Returned (Some (''four'', length ''abcdefg'' div 4 + length ''four'' div 4))"
    using te [THEN conjunct2] r t k by blast
  then have b: "fst (process_prompt_direct ?w [''key-1''] ''abcdefg'') =
                  Returned (Some (''four'', 2))"
    by simp
  have "(2::nat) \<le> (length ''abcdefg'' + length ''four'') div 4"
    using te [THEN conjunct1] b by blast
  with b show ?thesis by blast
qed

section \<open>Properties of the concurrency limiter\<close>

subsection \<open>Auxiliary facts\<close>

lemma direct_shape:
  "\<exists>body. snd (process_prompt_direct w api_keys message) = Acquire # body @ [Release] \<and>
          no_semaphore body"
proof -
  obtain out effs where a: "attempts w api_keys message 0 = (out, effs)"
    by (cases "attempts w api_keys message 0")
  have "no_semaphore effs"
    using attempts_no_semaphore [of w api_keys message 0] a by (simp add: no_semaphore_def)
  moreover have "snd (process_prompt_direct w api_keys message) = Acquire # effs @ [Release]"
    using a by (simp add: process_prompt_direct_def)
  ultimately show ?thesis by blast
qed

lemma holding_pending: "pending t \<Longrightarrow> \<not> holding t"
  by (auto simp: pending_def holding_def)

lemma holding_inside: "inside t \<Longrightarrow> holding t"
  by (auto simp: inside_def holding_def no_semaphore_def)

lemma holding_Nil: "\<not> holding []"
  by (simp add: holding_def)

lemma count_update:
  "i < length ts \<Longrightarrow>
     length (filter P (ts[i := x])) + (if P (ts ! i) then 1 else 0) =
     length (filter P ts) + (if P x then 1 else 0)"
proof (induction ts arbitrary: i)
  case Nil
  then show ?case by simp
next
  case (Cons t ts)
  show ?case
  proof (cases i)
    case 0
    then show ?thesis by simp
  next
    case (Suc j)
    with Cons.prems have "j < length ts" by simp
    from Cons.IH [OF this] Suc show ?thesis by simp
  qed
qed

lemma shape_update:
  assumes "\<forall>t \<in> set ts. call_shape t" and "call_shape x"
  shows "\<forall>t \<in> set (ts[i := x]). call_shape t"
  using assms set_update_subset_insert [of ts i x] by auto

lemma sem_step_inv:
  assumes inv: "sem_inv m s"
  shows "sem_inv m (sem_step s i)"
proof -
  obtain v ts where s: "s = (v, ts)" by (cases s)
  from inv s have shapes: "\<forall>t \<in> set ts. call_shape t" and total: "v + outstanding ts = m"
    by (simp_all add: sem_inv_def)
  show ?thesis
  proof (cases "i < length ts")
    case False
    with inv s show ?thesis by simp
  next
    case True
    then have ti: "call_shape (ts ! i)" using shapes by simp
    note cnt = count_update [OF True, of holding]
    show ?thesis
    proof (cases "ts ! i")
      case Nil
      with True inv s show ?thesis by simp
    next
      case (Cons e rest)
      show ?thesis
      proof (cases e)
        case Acquire
        with Cons ti have p: "pending (ts ! i)"
          by (auto simp: call_shape_def inside_def no_semaphore_def Cons_eq_append_conv)
        then have r: "inside rest"
          using Cons Acquire by (auto simp: pending_def inside_def)
        show ?thesis
        proof (cases "0 < v")
          case False
          with True Cons Acquire inv s show ?thesis by simp
        next
          case pos: True
          have "outstanding (ts[i := rest]) = outstanding ts + 1"
            using cnt [of rest] holding_pending [OF p] holding_inside [OF r]
            by (simp add: outstanding_def)
          moreover have "\<forall>t \<in> set (ts[i := rest]). call_shape t"
            using shapes r by (intro shape_update) (simp_all add: call_shape_def)
          ultimately show ?thesis
            using s True Cons Acquire pos total by (simp add: sem_inv_def)
        qed
      next
        case Release
        with Cons ti have ins: "inside (ts ! i)"
          by (auto simp: call_shape_def pending_def)
        then have rest: "rest = []"
          using Cons Release
          by (auto simp: inside_def no_semaphore_def Cons_eq_append_conv)
        have "outstanding (ts[i := rest]) + 1 = outstanding ts"
          using cnt [of rest] holding_inside [OF ins] rest holding_Nil
          by (simp add: outstanding_def)
        moreover have "\<forall>t \<in> set (ts[i := rest]). call_shape t"
          using shapes rest by (intro shape_update) (simp_all add: call_shape_def)
        ultimately show ?thesis
          using s True Cons Release total by (simp add: sem_inv_def)
      next
        case (Configure k)
        with Cons ti have ins: "inside (ts ! i)"
          by (auto simp: call_shape_def pending_def)
        then have r: "inside rest"
          using Cons Configure
          by (auto simp: inside_def no_semaphore_def Cons_eq_append_conv)
        have "outstanding (ts[i := rest]) = outstanding ts"
          using cnt [of rest] holding_inside [OF ins] holding_inside [OF r]
          by (simp add: outstanding_def)
        moreover have "\<forall>t \<in> set (ts[i := rest]). call_shape t"
          using shapes r by (intro shape_update) (simp_all add: call_shape_def)
        ultimately show ?thesis
          using s True Cons Configure total by (simp add: sem_inv_def)
      next
        case ListModels
        with Cons ti have ins: "inside (ts ! i)"
          by (auto simp: call_shape_def pending_def)
        then have r: "inside rest"
          using Cons ListModels
          by (auto simp: inside_def no_semaphore_def Cons_eq_append_conv)
        have "outstanding (ts[i := rest]) = outstanding ts"
          using cnt [of rest] holding_inside [OF ins] holding_inside [OF r]
          by (simp add: outstanding_def)
        moreover have "\<forall>t \<in> set (ts[i := rest]). call_shape t"
          using shapes r by (intro shape_update) (simp_all add: call_shape_def)
        ultimately show ?thesis
          using s True Cons ListModels total by (simp add: sem_inv_def)
      next
        case (Generate mn msg)
        with Cons ti have ins: "inside (ts ! i)"
          by (auto simp: call_shape_def pending_def)
        then have r: "inside rest"
          using Cons Generate
          by (auto simp: inside_def no_semaphore_def Cons_eq_append_conv)
        have "outstanding (ts[i := rest]) = outstanding ts"
          using cnt [of rest] holding_inside [OF ins] holding_inside [OF r]
          by (simp add: outstanding_def)
        moreover have "\<forall>t \<in> set (ts[i := rest]). call_shape t"
          using shapes r by (intro shape_update) (simp_all add: call_shape_def)
        ultimately show ?thesis
          using s True Cons Generate total by (simp add: sem_inv_def)
      next
        case (Sleep d)
        with Cons ti have ins: "inside (ts ! i)"
          by (auto simp: call_shape_def pending_def)
        then have r: "inside rest"
          using Cons Sleep
          by (auto simp: inside_def no_semaphore_def Cons_eq_append_conv)
        have "outstanding (ts[i := rest]) = outstanding ts"
          using cnt [of rest] holding_inside [OF ins] holding_inside [OF r]
          by (simp add: outstanding_def)
        moreover have "\<forall>t \<in> set (ts[i := rest]). call_shape t"
          using shapes r by (intro shape_update) (simp_all add: call_shape_def)
        ultimately show ?thesis
          using s True Cons Sleep total by (simp add: sem_inv_def)
      qed
    qed
  qed
qed

lemma sem_run_inv:
  "sem_inv m s \<Longrightarrow> sem_inv m (foldl sem_step s schedule)"
  by (induction schedule arbitrary: s) (simp_all add: sem_step_inv)

lemma sem_init_inv:
  "sem_inv (MAX_CONCURRENT_REQUESTS api_keys)
     (MAX_CONCURRENT_REQUESTS api_keys, direct_calls api_keys calls)"
proof -
  have p: "\<forall>t \<in> set (direct_calls api_keys calls). pending t"
    using direct_shape by (auto simp: direct_calls_def pending_def)
  then have "filter holding (direct_calls api_keys calls) = []"
    by (auto simp: filter_empty_conv holding_pending)
  with p show ?thesis
    by (simp add: sem_inv_def outstanding_def call_shape_def)
qed

lemmas eval_sem =
  sem_run_def direct_calls_def MAX_CONCURRENT_REQUESTS_def outstanding_def holding_def

subsection \<open>Claim C4: the size of the limiter and the permits outstanding\<close>

text \<open>
  Claim C4. The limiter holds \<open>2 * len(api_keys)\<close> permits, and 3 when there is no key.
  However many calls of \<open>process_prompt_direct\<close> run at the same time and however they
  are scheduled, after any number of steps the permits outstanding do not exceed that
  number (they and the semaphore's counter add up to it). Each call acquires one permit before anything else
  and releases it as its last action, so it holds exactly one permit across all of its
  attempts.
\<close>

theorem permits_bounded:
  "MAX_CONCURRENT_REQUESTS api_keys = (if api_keys = [] then 3 else 2 * length api_keys) \<and>
   outstanding (snd (sem_run api_keys calls schedule)) \<le> MAX_CONCURRENT_REQUESTS api_keys \<and>
   fst (sem_run api_keys calls schedule) + outstanding (snd (sem_run api_keys calls schedule)) =
     MAX_CONCURRENT_REQUESTS api_keys \<and>
   (\<exists>body. snd (process_prompt_direct w api_keys message) = Acquire # body @ [Release] \<and>
           Acquire \<notin> set body \<and> Release \<notin> set body \<and>
           upstream_attempts body =
             upstream_attempts (snd (process_prompt_direct w api_keys message)))"
proof (intro conjI)
  show "MAX_CONCURRENT_REQUESTS api_keys = (if api_keys = [] then 3 else 2 * length api_keys)"
    by (simp add: MAX_CONCURRENT_REQUESTS_def)
  have inv: "sem_inv (MAX_CONCURRENT_REQUESTS api_keys) (sem_run api_keys calls schedule)"
    unfolding sem_run_def by (rule sem_run_inv) (rule sem_init_inv)
  then show eq: "fst (sem_run api_keys calls schedule) +
                 outstanding (snd (sem_run api_keys calls schedule)) =
                 MAX_CONCURRENT_REQUESTS api_keys"
    by (simp add: sem_inv_def)
  then show "outstanding (snd (sem_run api_keys calls schedule)) \<le>
               MAX_CONCURRENT_REQUESTS api_keys"
    by arith
  from direct_shape [of w api_keys message] obtain body
    where b: "snd (process_prompt_direct w api_keys message) = Acquire # body @ [Release]"
      and n: "no_semaphore body"
    by blast
  have "upstream_attempts body =
          upstream_attempts (snd (process_prompt_direct w api_keys message))"
    by (simp add: b upstream_attempts_def)
  with b n show "\<exists>body. snd (process_prompt_direct w api_keys message) =
                   Acquire # body @ [Release] \<and>
                 Acquire \<notin> set body \<and> Release \<notin> set body \<and>
                 upstream_attempts body =
                   upstream_attempts (snd (process_prompt_direct w api_keys message))"
    by (auto simp: no_semaphore_def)
qed

text \<open>
  The theorem with one key (two permits) and three calls that each try to enter: two
  hold a permit and the counter is 0, so the third waits.
\<close>

theorem permits_bounded_witness:
  "outstanding
     (snd (sem_run [''key-1'']
             [(scripted [Text ''a''], ''p''), (scripted [Text ''b''], ''q''),
              (scripted [Text ''c''], ''r'')]
             [0, 1, 2])) \<le> 2 \<and>
   fst (sem_run [''key-1'']
          [(scripted [Text ''a''], ''p''), (scripted [Text ''b''], ''q''),
           (scripted [Text ''c''], ''r'')]
          [0, 1, 2]) = 0"
proof -
  let ?calls = "[(scripted [Text ''a''], ''p''), (scripted [Text ''b''], ''q''),
                 (scripted [Text ''c''], ''r'')]"
  have m: "MAX_CONCURRENT_REQUESTS [''key-1''] = 2"
    by (simp add: MAX_CONCURRENT_REQUESTS_def)
  have v: "fst (sem_run [''key-1''] ?calls [0, 1, 2]) = 0"
    by (simp add: eval_sem eval_direct)
  from permits_bounded [of "[''key-1'']" ?calls "[0, 1, 2]"] m
  have "outstanding (snd (sem_run [''key-1''] ?calls [0, 1, 2])) \<le> 2"
    by simp
  with v show ?thesis by blast
qed

section \<open>Properties of admission\<close>

subsection \<open>Auxiliary facts\<close>

lemmas eval_admit =
  process_prompt_admit_def start_worker_on_demand_def make_request_id_def str_int_def
  str_nat.simps digit_char_def MAX_QUEUE_SIZE_def init_state_def Let_def

lemma admit_rejected:
  assumes "current_queue_size st \<ge> MAX_QUEUE_SIZE"
  shows "process_prompt_admit st t rnd now message priority =
           (Inl (OverflowError, queue_full_message),
            (start_worker_on_demand st)\<lparr>logged := logged st @ [QueueFull]\<rparr>)"
  using assms by (simp add: process_prompt_admit_def start_worker_on_demand_def Let_def)

lemma admit_accepted:
  assumes "current_queue_size st < MAX_QUEUE_SIZE"
  shows "process_prompt_admit st t rnd now message priority =
           (Inr (make_request_id t rnd),
            (start_worker_on_demand st)
              \<lparr>current_queue_size := current_queue_size st + 1,
               request_queue := request_queue st @ [(make_request_id t rnd, message, priority)],
               logged := logged st @ [Added (make_request_id t rnd)],
               request_results := (request_results st)(make_request_id t rnd \<mapsto>
                 \<lparr>status = Queued, queued_at = Some now, result = None, error = None,
                  error_type = None, completed_at = None\<rparr>)\<rparr>)"
  using assms by (simp add: process_prompt_admit_def start_worker_on_demand_def Let_def)

lemma start_worker_on_demand_keeps:
  "logged (start_worker_on_demand st) = logged st"
  "request_queue (start_worker_on_demand st) = request_queue st"
  "request_results (start_worker_on_demand st) = request_results st"
  "current_queue_size (start_worker_on_demand st) = current_queue_size st"
  by (simp_all add: start_worker_on_demand_def)

subsection \<open>Claim C1: admission below the capacity, rejection at the capacity\<close>

text \<open>
  Claim C1. A call of \<open>process_prompt\<close> that finds \<open>current_queue_size\<close> below
  \<open>MAX_QUEUE_SIZE = 100\<close> is admitted: it gets its request id, the counter grows by one and
  the request is appended to the queue. A call that finds the counter at (or above) the
  capacity raises \<open>OverflowError\<close> at once, whatever \<open>wait_for_result\<close> is and without
  waiting, and leaves the counter and the queue as they were.
\<close>

theorem admission_and_rejection:
  "(current_queue_size st < MAX_QUEUE_SIZE \<longrightarrow>
      fst (process_prompt_admit st t rnd now message priority) = Inr (make_request_id t rnd) \<and>
      current_queue_size (snd (process_prompt_admit st t rnd now message priority)) =
        current_queue_size st + 1 \<and>
      request_queue (snd (process_prompt_admit st t rnd now message priority)) =
        request_queue st @ [(make_request_id t rnd, message, priority)]) \<and>
   (MAX_QUEUE_SIZE \<le> current_queue_size st \<longrightarrow>
      fst (process_prompt api_keys st t rnd now message priority wait_for_result timeout others) =
        Inl (OverflowError, queue_full_message) \<and>
      current_queue_size
        (snd (process_prompt api_keys st t rnd now message priority wait_for_result timeout others)) =
        current_queue_size st \<and>
      request_queue
        (snd (process_prompt api_keys st t rnd now message priority wait_for_result timeout others)) =
        request_queue st)"
proof (intro conjI impI)
  assume lt: "current_queue_size st < MAX_QUEUE_SIZE"
  note a = admit_accepted [OF lt, of t rnd now message priority]
  show "fst (process_prompt_admit st t rnd now message priority) = Inr (make_request_id t rnd)"
    by (simp add: a)
  show "current_queue_size (snd (process_prompt_admit st t rnd now message priority)) =
          current_queue_size st + 1"
    by (simp add: a)
  show "request_queue (snd (process_prompt_admit st t rnd now message priority)) =
          request_queue st @ [(make_request_id t rnd, message, priority)]"
    by (simp add: a)
next
  assume ge: "MAX_QUEUE_SIZE \<le> current_queue_size st"
  note r = admit_rejected [OF ge, of t rnd now message priority]
  have p: "process_prompt api_keys st t rnd now message priority wait_for_result timeout others =
             (Inl (OverflowError, queue_full_message),
              (start_worker_on_demand st)\<lparr>logged := logged st @ [QueueFull]\<rparr>)"
    by (simp add: process_prompt_def r)
  show "fst (process_prompt api_keys st t rnd now message priority wait_for_result timeout others) =
          Inl (OverflowError, queue_full_message)"
    by (simp add: p)
  show "current_queue_size
          (snd (process_prompt api_keys st t rnd now message priority wait_for_result timeout others)) =
          current_queue_size st"
    by (simp add: p start_worker_on_demand_def)
  show "request_queue
          (snd (process_prompt api_keys st t rnd now message priority wait_for_result timeout others)) =
          request_queue st"
    by (simp add: p start_worker_on_demand_def)
qed

text \<open>The theorem at an empty queue (admitted) and at a counter of 100 (rejected).\<close>

theorem admission_and_rejection_witness:
  "fst (process_prompt_admit init_state 1700000000 1234 1700000000250000 ''hello'' 3) =
     Inr ''req_1700000000_1234'' \<and>
   current_queue_size (snd (process_prompt_admit init_state 1700000000 1234 1700000000250000 ''hello'' 3)) = 1 \<and>
   fst (process_prompt [''key-1''] (init_state\<lparr>current_queue_size := 100\<rparr>)
          1700000000 1234 1700000000250000 ''hello'' 3 True 120 []) =
     Inl (OverflowError, queue_full_message) \<and>
   current_queue_size
     (snd (process_prompt [''key-1''] (init_state\<lparr>current_queue_size := 100\<rparr>)
          1700000000 1234 1700000000250000 ''hello'' 3 True 120 [])) = 100"
proof -
  have id: "make_request_id 1700000000 1234 = ''req_1700000000_1234''"
    by (simp add: make_request_id_def str_int_def str_nat.simps digit_char_def)
  have a: "current_queue_size init_state < MAX_QUEUE_SIZE"
    by (simp add: init_state_def MAX_QUEUE_SIZE_def)
  have b: "MAX_QUEUE_SIZE \<le> current_queue_size (init_state\<lparr>current_queue_size := 100\<rparr>)"
    by (simp add: MAX_QUEUE_SIZE_def)
  have c: "current_queue_size init_state = 0"
    by (simp add: init_state_def)
  from admission_and_rejection
         [where st = init_state and t = 1700000000 and rnd = 1234 and now = 1700000000250000
            and message = "''hello''" and priority = 3] a id c
  have 1: "fst (process_prompt_admit init_state 1700000000 1234 1700000000250000 ''hello'' 3) =
             Inr ''req_1700000000_1234'' \<and>
           current_queue_size (snd (process_prompt_admit init_state 1700000000 1234 1700000000250000 ''hello'' 3)) = 1"
    by simp
  from admission_and_rejection
         [where st = "init_state\<lparr>current_queue_size := 100\<rparr>" and api_keys = "[''key-1'']"
            and t = 1700000000 and rnd = 1234 and now = 1700000000250000 and message = "''hello''"
            and priority = 3 and wait_for_result = True and timeout = 120 and others = "[]"] b
  have 2: "fst (process_prompt [''key-1''] (init_state\<lparr>current_queue_size := 100\<rparr>)
                  1700000000 1234 1700000000250000 ''hello'' 3 True 120 []) =
             Inl (OverflowError, queue_full_message) \<and>
           current_queue_size
             (snd (process_prompt [''key-1''] (init_state\<lparr>current_queue_size := 100\<rparr>)
                  1700000000 1234 1700000000250000 ''hello'' 3 True 120 [])) = 100"
    by simp
  from 1 2 show ?thesis by blast
qed

subsection \<open>Claim C6: the result entry of a submission\<close>

text \<open>
  As stated, C6 fails: the capacity test comes before the entry is created, so a call
  rejected with the queue-full error leaves no entry under its request id.
\<close>

theorem rejected_leaves_no_record:
  "fst (process_prompt_admit (init_state\<lparr>current_queue_size := 100\<rparr>)
          1700000000 1234 1700000000250000 ''hello'' 3) =
     Inl (OverflowError, queue_full_message) \<and>
   request_results
     (snd (process_prompt_admit (init_state\<lparr>current_queue_size := 100\<rparr>)
             1700000000 1234 1700000000250000 ''hello'' 3))
     (make_request_id 1700000000 1234) = None"
  by (simp add: process_prompt_admit_def start_worker_on_demand_def MAX_QUEUE_SIZE_def
                init_state_def Let_def)

text \<open>
  Claim C6, as amended. A call that is admitted creates the entry of its request id with
  status \<open>queued\<close>, in the same uninterrupted piece of code that appends the request to
  the queue. A call rejected with the queue-full error creates no entry: the result store
  and the queue are as before, so nothing of it reaches the worker.
\<close>

theorem record_created_on_admission_only:
  "(current_queue_size st < MAX_QUEUE_SIZE \<longrightarrow>
      fst (process_prompt_admit st t rnd now message priority) = Inr (make_request_id t rnd) \<and>
      map_option status
        (request_results (snd (process_prompt_admit st t rnd now message priority))
           (make_request_id t rnd)) = Some Queued \<and>
      request_queue (snd (process_prompt_admit st t rnd now message priority)) =
        request_queue st @ [(make_request_id t rnd, message, priority)]) \<and>
   (MAX_QUEUE_SIZE \<le> current_queue_size st \<longrightarrow>
      fst (process_prompt_admit st t rnd now message priority) =
        Inl (OverflowError, queue_full_message) \<and>
      request_results (snd (process_prompt_admit st t rnd now message priority)) =
        request_results st \<and>
      request_queue (snd (process_prompt_admit st t rnd now message priority)) =
        request_queue st)"
proof (intro conjI impI)
  assume lt: "current_queue_size st < MAX_QUEUE_SIZE"
  note a = admit_accepted [OF lt, of t rnd now message priority]
  show "fst (process_prompt_admit st t rnd now message priority) = Inr (make_request_id t rnd)"
    by (simp add: a)
  show "map_option status
          (request_results (snd (process_prompt_admit st t rnd now message priority))
             (make_request_id t rnd)) = Some Queued"
    by (simp add: a)
  show "request_queue (snd (process_prompt_admit st t rnd now message priority)) =
          request_queue st @ [(make_request_id t rnd, message, priority)]"
    by (simp add: a)
next
  assume ge: "MAX_QUEUE_SIZE \<le> current_queue_size st"
  note r = admit_rejected [OF ge, of t rnd now message priority]
  show "fst (process_prompt_admit st t rnd now message priority) =
          Inl (OverflowError, queue_full_message)"
    by (simp add: r)
  show "request_results (snd (process_prompt_admit st t rnd now message priority)) =
          request_results st"
    by (simp add: r start_worker_on_demand_def)
  show "request_queue (snd (process_prompt_admit st t rnd now message priority)) =
          request_queue st"
    by (simp add: r start_worker_on_demand_def)
qed

text \<open>The theorem at an empty queue and at a counter of 100.\<close>

theorem record_created_on_admission_only_witness:
  "map_option status
     (request_results (snd (process_prompt_admit init_state 1700000000 1234 1700000000250000 ''hello'' 3))
        (make_request_id 1700000000 1234)) = Some Queued \<and>
   request_results
     (snd (process_prompt_admit (init_state\<lparr>current_queue_size := 100\<rparr>)
             1700000000 1234 1700000000250000 ''hello'' 3)) = Map.empty"
proof -
  have a: "current_queue_size init_state < MAX_QUEUE_SIZE"
    by (simp add: init_state_def MAX_QUEUE_SIZE_def)
  have b: "MAX_QUEUE_SIZE \<le> current_queue_size (init_state\<lparr>current_queue_size := 100\<rparr>)"
    by (simp add: MAX_QUEUE_SIZE_def)
  have e: "request_results (init_state\<lparr>current_queue_size := 100\<rparr>) = Map.empty"
    by (simp add: init_state_def)
  from record_created_on_admission_only
         [where st = init_state and t = 1700000000 and rnd = 1234 and now = 1700000000250000
            and message = "''hello''" and priority = 3] a
  have 1: "map_option status
             (request_results (snd (process_prompt_admit init_state 1700000000 1234 1700000000250000 ''hello'' 3))
                (make_request_id 1700000000 1234)) = Some Queued"
    by blast
  from record_created_on_admission_only
         [where st = "init_state\<lparr>current_queue_size := 100\<rparr>" and t = 1700000000
            and rnd = 1234 and now = 1700000000250000 and message = "''hello''" and priority = 3] b e
  have 2: "request_results
             (snd (process_prompt_admit (init_state\<lparr>current_queue_size := 100\<rparr>)
                     1700000000 1234 1700000000250000 ''hello'' 3)) = Map.empty"
    by simp
  from 1 2 show ?thesis by blast
qed

subsection \<open>Claim C9: uniqueness of the request ids\<close>

text \<open>
  Claim C9 asks that two live submissions never get the same request id. The id is built
  from the clock in whole seconds and a random number between 1000 and 9999, and the
  store is not consulted. Two calls in the same second that draw the same number get the
  same id: both are admitted, the queue holds two requests under one id, and the second
  call's entry replaces the first's (its \<open>queued_at\<close> is the second call's).
\<close>

theorem request_id_collision:
  "fst (process_prompt_admit init_state 1700000000 1234 1700000000250000 ''first'' 3) =
     Inr ''req_1700000000_1234'' \<and>
   fst (process_prompt_admit
          (snd (process_prompt_admit init_state 1700000000 1234 1700000000250000 ''first'' 3))
          1700000000 1234 1700000000750000 ''second'' 3) =
     Inr ''req_1700000000_1234'' \<and>
   request_queue
     (snd (process_prompt_admit
             (snd (process_prompt_admit init_state 1700000000 1234 1700000000250000 ''first'' 3))
             1700000000 1234 1700000000750000 ''second'' 3)) =
     [(''req_1700000000_1234'', ''first'', 3), (''req_1700000000_1234'', ''second'', 3)] \<and>
   map_option queued_at
     (request_results
        (snd (process_prompt_admit init_state 1700000000 1234 1700000000250000 ''first'' 3))
        ''req_1700000000_1234'') = Some (Some 1700000000250000) \<and>
   map_option queued_at
     (request_results
        (snd (process_prompt_admit
                (snd (process_prompt_admit init_state 1700000000 1234 1700000000250000 ''first'' 3))
                1700000000 1234 1700000000750000 ''second'' 3))
        ''req_1700000000_1234'') = Some (Some 1700000000750000)"
  by (simp add: eval_admit)

section \<open>Properties of the result store\<close>

subsection \<open>Auxiliary facts\<close>

lemmas eval_run =
  run_def worker_start_def worker_take_def worker_store_def worker_resume_def
  stored_record_def stored_line_def poll_result_def wait_timeout_def delivered_def

lemma queued_only_from_submit:
  assumes "request_results (step api_keys st e) rid = Some d'" and "status d' = Queued"
  shows "(\<exists>d. request_results st rid = Some d \<and> status d = Queued) \<or>
         (\<exists>t rnd now message priority.
            e = Submit t rnd now message priority \<and> make_request_id t rnd = rid)"
proof (cases e)
  case (Submit t rnd now message priority)
  show ?thesis
  proof (cases "current_queue_size st < MAX_QUEUE_SIZE")
    case True
    from admit_accepted [OF True, of t rnd now message priority] assms Submit
    show ?thesis by (auto split: if_splits simp: start_worker_on_demand_def)
  next
    case False
    then have "MAX_QUEUE_SIZE \<le> current_queue_size st" by simp
    from admit_rejected [OF this, of t rnd now message priority] assms Submit
    show ?thesis by (auto simp: start_worker_on_demand_def split: if_splits)
  qed
next
  case (WorkerStart i)
  with assms show ?thesis by (auto simp: worker_start_def split: if_splits)
next
  case (WorkerTake i)
  with assms show ?thesis by (auto simp: worker_take_def split: if_splits list.splits)
next
  case (WorkerStore i w now)
  with assms show ?thesis
    by (auto simp: worker_store_def stored_record_def Let_def
             split: if_splits worker.splits outcome.splits)
next
  case (WorkerResume i)
  with assms show ?thesis by (auto simp: worker_resume_def split: if_splits worker.splits)
next
  case (WorkerCancel i)
  with assms show ?thesis by (auto simp: worker_cancel_def split: if_splits)
next
  case (Poll request_id)
  with assms show ?thesis by (auto simp: poll_result_def split: if_splits option.splits)
next
  case (GiveUp request_id timeout)
  with assms show ?thesis by (auto simp: wait_timeout_def split: if_splits option.splits)
next
  case (Cleanup now)
  with assms show ?thesis by (auto simp: cleanup_old_results_def split: if_splits option.splits)
qed

lemma wait_message_differs:
  "wait_timeout_message timeout \<noteq> ''Request to the model timed out. Please try again.''"
  by (simp add: wait_timeout_message_def)

lemma poll_not_ready:
  "\<not> ready st request_id \<Longrightarrow> poll_result st request_id = (None, st)"
  by (auto simp: ready_def poll_result_def split: option.splits)

lemma wait_loop_runs_out:
  "(\<forall>k<length others. \<not> ready (turn_state api_keys others st k) request_id) \<Longrightarrow>
     wait_loop api_keys request_id timeout others st =
       (Inl (TimeoutError, wait_timeout_message timeout),
        snd (wait_timeout (turn_state api_keys others st (length others)) request_id timeout))"
proof (induction others arbitrary: st)
  case Nil
  then show ?case by (simp add: wait_timeout_def)
next
  case (Cons evs others)
  from Cons.prems have "\<not> ready (turn_state api_keys (evs # others) st 0) request_id"
    by blast
  then have p: "poll_result st request_id = (None, st)"
    by (simp add: poll_not_ready)
  have "\<forall>k<length others.
          \<not> ready (turn_state api_keys others (run api_keys st evs) k) request_id"
  proof (intro allI impI)
    fix k assume "k < length others"
    then have "Suc k < length (evs # others)" by simp
    with Cons.prems have "\<not> ready (turn_state api_keys (evs # others) st (Suc k)) request_id"
      by blast
    then show "\<not> ready (turn_state api_keys others (run api_keys st evs) k) request_id"
      by simp
  qed
  from Cons.IH [OF this] p show ?case by simp
qed

lemma wait_loop_delivers:
  "k < length others \<Longrightarrow>
   (\<forall>j<k. \<not> ready (turn_state api_keys others st j) request_id) \<Longrightarrow>
   request_results (turn_state api_keys others st k) request_id = Some d \<Longrightarrow>
   status d = Completed \<or> status d = Error \<Longrightarrow>
     fst (wait_loop api_keys request_id timeout others st) = delivered d"
proof (induction others arbitrary: st k)
  case Nil
  then show ?case by simp
next
  case (Cons evs others)
  show ?case
  proof (cases k)
    case 0
    with Cons.prems have "request_results st request_id = Some d" by simp
    with Cons.prems(4) show ?thesis
      by (simp add: poll_result_def)
  next
    case (Suc k')
    with Cons.prems(2) have "\<not> ready (turn_state api_keys (evs # others) st 0) request_id"
      by blast
    then have p: "poll_result st request_id = (None, st)"
      by (simp add: poll_not_ready)
    have k': "k' < length others" using Cons.prems(1) Suc by simp
    have nr: "\<forall>j<k'. \<not> ready (turn_state api_keys others (run api_keys st evs) j) request_id"
    proof (intro allI impI)
      fix j assume "j < k'"
      then have "Suc j < k" using Suc by simp
      with Cons.prems(2)
      have "\<not> ready (turn_state api_keys (evs # others) st (Suc j)) request_id"
        by blast
      then show "\<not> ready (turn_state api_keys others (run api_keys st evs) j) request_id"
        by simp
    qed
    have d: "request_results (turn_state api_keys others (run api_keys st evs) k') request_id =
               Some d"
      using Cons.prems(3) Suc by simp
    from Cons.IH [OF k' nr d Cons.prems(4)] p show ?thesis by simp
  qed
qed

lemma final_error_timeout:
  "categorised_timeout err \<Longrightarrow>
     final_error err = (TimeoutError, ''Request to the model timed out. Please try again.'')"
  by (auto simp: categorised_timeout_def final_error_def Let_def)

lemma attempts_at_last:
  assumes keys: "api_keys \<noteq> []" and j: "j + 1 = MAX_RETRIES"
    and f: "failure_text (reply_at w j) = Some err"
    and small: "\<not> payload_too_large (reply_at w j)"
  shows "fst (attempts w api_keys message j) = Raised (final_error err)"
proof -
  from try_attempt_failure [OF keys f, of message] obtain pre
    where t: "try_attempt w api_keys message j =
                (Inl err, pre @ [Generate (model_name_for w j) message])"
    by blast
  from small f have "\<not> str_in ''too many tokens'' (str_lower err)"
    by (simp add: payload_too_large_def)
  with t j show ?thesis
    by (simp add: attempts.simps [of w api_keys message j])
qed

lemma direct_categorised_timeout:
  assumes keys: "api_keys \<noteq> []"
    and all: "\<forall>i<MAX_RETRIES. retried (reply_at w i)"
    and f: "failure_text (reply_at w (MAX_RETRIES - 1)) = Some err"
    and c: "categorised_timeout err"
  shows "fst (process_prompt_direct w api_keys message) =
           Raised (TimeoutError, ''Request to the model timed out. Please try again.'')"
proof -
  let ?j = "MAX_RETRIES - 1"
  have j: "?j < MAX_RETRIES" and j1: "?j + 1 = MAX_RETRIES"
    by (simp_all add: MAX_RETRIES_def)
  have pre: "\<forall>i. 0 \<le> i \<and> i < ?j \<longrightarrow> retried (reply_at w i)"
    using all by (simp add: MAX_RETRIES_def)
  from attempts_skip [OF keys j _ pre, of message] obtain p1
    where s: "attempts w api_keys message 0 =
                (fst (attempts w api_keys message ?j), p1 @ snd (attempts w api_keys message ?j))"
    by auto
  from all j have "retried (reply_at w ?j)" by blast
  then have small: "\<not> payload_too_large (reply_at w ?j)"
    by (simp add: retried_def)
  have "fst (attempts w api_keys message ?j) = Raised (final_error err)"
    by (rule attempts_at_last [OF keys j1 f small])
  with s c show ?thesis
    by (simp add: process_prompt_direct_def final_error_timeout)
qed

lemma worker_store_writes:
  "i < length (workers st) \<Longrightarrow> workers st ! i = Processing (rid, message, priority) \<Longrightarrow>
     request_results (worker_store api_keys st i w now) rid =
       Some (stored_record (fst (process_prompt_direct w api_keys message)) now)"
  by (simp add: worker_store_def Let_def)

lemma delivered_raised:
  "delivered (stored_record (Raised (ty, m)) now) = Inl (ty, m)"
  by (cases ty) (simp_all add: delivered_def stored_record_def)

subsection \<open>Claim C2: no way back to \<open>queued\<close>\<close>

text \<open>
  Claim C2 asks that an entry with a terminal status is never set back to \<open>queued\<close>. By
  \<open>queued_only_from_submit\<close> no step of a worker, of a waiting caller or of the reaper
  does so, and an admission does so only for the id it generates. But ids can repeat
  (see C9): here the worker has stored an error for the first request (the upstream
  refused it at once), and a second call in the same second draws the same number; its
  admission sets the finished entry back to \<open>queued\<close>.
\<close>

theorem terminal_record_requeued:
  "map_option status
     (request_results
        (run [''key-1''] init_state
           [Submit 1700000000 1234 1700000000250000 ''first'' 3, WorkerStart 0, WorkerTake 0,
            WorkerStore 0 (scripted [Raises ''400 Too many tokens'']) 1700000000500000])
        ''req_1700000000_1234'') = Some Error \<and>
   map_option status
     (request_results
        (run [''key-1''] init_state
           [Submit 1700000000 1234 1700000000250000 ''first'' 3, WorkerStart 0, WorkerTake 0,
            WorkerStore 0 (scripted [Raises ''400 Too many tokens'']) 1700000000500000,
            Submit 1700000000 1234 1700000000750000 ''second'' 3])
        ''req_1700000000_1234'') = Some Queued"
  by (simp add: eval_run eval_admit eval_direct)

subsection \<open>Claim C7: the two timeouts\<close>

text \<open>
  As stated, C7 fails: a caller whose wait ran out and a caller whose request failed
  upstream with a timeout after the last retry both receive the built-in \<open>TimeoutError\<close>.
  In the first run below the worker is still busy when the caller's wait of one second
  ends; in the second the upstream answers "504 Deadline Exceeded" three times.
\<close>

theorem timeout_kinds_counterexample:
  "fst (process_prompt [''key-1''] init_state 1700000000 1234 1700000000250000 ''hello'' 3 True 1
          [[WorkerStart 0, WorkerTake 0], []]) =
     Inl (TimeoutError, wait_timeout_message 1) \<and>
   fst (process_prompt [''key-1''] init_state 1700000000 1234 1700000000250000 ''hello'' 3 True 120
          [[WorkerStart 0, WorkerTake 0], [],
           [WorkerStore 0
              (scripted [Raises ''504 Deadline Exceeded'', Raises ''504 Deadline Exceeded'',
                         Raises ''504 Deadline Exceeded'']) 1700000008000000],
           []]) =
     Inl (TimeoutError, ''Request to the model timed out. Please try again.'')"
  by (simp add: process_prompt_def eval_run eval_admit eval_direct)

text \<open>
  Claim C7, as amended. A caller whose every look at the store finds no ready entry,
  however many turns its wait loop makes and whatever the other tasks do meanwhile,
  receives \<open>TimeoutError\<close> with the message of \<open>wait_timeout_message\<close>, and the state is
  that of the last turn with the timeout marked. When all \<open>MAX_RETRIES\<close> attempts fail
  with retried errors and the text of the last is one the module categorises as a
  timeout, \<open>process_prompt_direct\<close> raises \<open>TimeoutError\<close> with its own fixed message (and
  it raises \<open>TimeoutError\<close> with no other message); the worker stores what the call
  raised under the request id, and a caller whose first ready look finds that entry
  receives \<open>TimeoutError\<close> with that message. The two outcomes have the same exception
  type and differ in their message only.
\<close>

theorem timeouts_share_exception_type:
  "((\<forall>k<length others. \<not> ready (turn_state api_keys others st k) request_id) \<longrightarrow>
      wait_loop api_keys request_id timeout others st =
        (Inl (TimeoutError, wait_timeout_message timeout),
         snd (wait_timeout (turn_state api_keys others st (length others)) request_id timeout))) \<and>
   (api_keys \<noteq> [] \<and> (\<forall>i<MAX_RETRIES. retried (reply_at w i)) \<and>
    failure_text (reply_at w (MAX_RETRIES - 1)) = Some err \<and> categorised_timeout err \<longrightarrow>
      fst (process_prompt_direct w api_keys message) =
        Raised (TimeoutError, ''Request to the model timed out. Please try again.'') \<and>
      (k < length others' \<and>
       (\<forall>j<k. \<not> ready (turn_state api_keys others' st' j) rid) \<and>
       request_results (turn_state api_keys others' st' k) rid =
         Some (stored_record (fst (process_prompt_direct w api_keys message)) now) \<longrightarrow>
         fst (wait_loop api_keys rid timeout' others' st') =
           Inl (TimeoutError, ''Request to the model timed out. Please try again.''))) \<and>
   (fst (process_prompt_direct w api_keys message) = Raised (TimeoutError, m) \<longrightarrow>
      m = ''Request to the model timed out. Please try again.'') \<and>
   (i < length (workers st'') \<and> workers st'' ! i = Processing (rid, message, priority) \<longrightarrow>
      request_results (worker_store api_keys st'' i w now) rid =
        Some (stored_record (fst (process_prompt_direct w api_keys message)) now)) \<and>
   ''Request to the model timed out. Please try again.'' \<noteq> wait_timeout_message timeout"
proof (intro conjI impI)
  assume "\<forall>k<length others. \<not> ready (turn_state api_keys others st k) request_id"
  then show "wait_loop api_keys request_id timeout others st =
        (Inl (TimeoutError, wait_timeout_message timeout),
         snd (wait_timeout (turn_state api_keys others st (length others)) request_id timeout))"
    by (rule wait_loop_runs_out)
next
  assume h: "api_keys \<noteq> [] \<and> (\<forall>i<MAX_RETRIES. retried (reply_at w i)) \<and>
             failure_text (reply_at w (MAX_RETRIES - 1)) = Some err \<and> categorised_timeout err"
  then show "fst (process_prompt_direct w api_keys message) =
               Raised (TimeoutError, ''Request to the model timed out. Please try again.'')"
    by (intro direct_categorised_timeout [of api_keys w err]) simp_all
next
  assume h: "api_keys \<noteq> [] \<and> (\<forall>i<MAX_RETRIES. retried (reply_at w i)) \<and>
             failure_text (reply_at w (MAX_RETRIES - 1)) = Some err \<and> categorised_timeout err"
  then have r: "fst (process_prompt_direct w api_keys message) =
                  Raised (TimeoutError, ''Request to the model timed out. Please try again.'')"
    by (intro direct_categorised_timeout [of api_keys w err]) simp_all
  assume g: "k < length others' \<and>
             (\<forall>j<k. \<not> ready (turn_state api_keys others' st' j) rid) \<and>
             request_results (turn_state api_keys others' st' k) rid =
               Some (stored_record (fst (process_prompt_direct w api_keys message)) now)"
  let ?d = "stored_record (fst (process_prompt_direct w api_keys message)) now"
  have e: "status ?d = Completed \<or> status ?d = Error"
    by (simp add: r stored_record_def)
  from g have "fst (wait_loop api_keys rid timeout' others' st') = delivered ?d"
    by (intro wait_loop_delivers [OF _ _ _ e, of k]) simp_all
  then show "fst (wait_loop api_keys rid timeout' others' st') =
               Inl (TimeoutError, ''Request to the model timed out. Please try again.'')"
    by (simp add: r delivered_raised)
next
  assume "fst (process_prompt_direct w api_keys message) = Raised (TimeoutError, m)"
  then have "fst (attempts w api_keys message 0) = Raised (TimeoutError, m)"
    by (simp add: process_prompt_direct_def split: prod.splits)
  then show "m = ''Request to the model timed out. Please try again.''"
    by (rule attempts_timeout_message)
next
  assume "i < length (workers st'') \<and> workers st'' ! i = Processing (rid, message, priority)"
  then show "request_results (worker_store api_keys st'' i w now) rid =
               Some (stored_record (fst (process_prompt_direct w api_keys message)) now)"
    by (simp add: worker_store_writes)
next
  show "''Request to the model timed out. Please try again.'' \<noteq> wait_timeout_message timeout"
    using wait_message_differs [of timeout] by simp
qed

text \<open>
  The theorem at the two runs of the counterexample, from the state after the caller's
  admission: a wait of two turns while the worker is busy, and a wait whose fourth look
  finds the error the worker stored after three answers "504 Deadline Exceeded".
\<close>

theorem timeouts_share_exception_type_witness:
  "wait_loop [''key-1''] ''req_1700000000_1234'' 1 [[WorkerStart 0, WorkerTake 0], []]
     (run [''key-1''] init_state [Submit 1700000000 1234 1700000000250000 ''hello'' 3]) =
     (Inl (TimeoutError, wait_timeout_message 1),
      snd (wait_timeout
             (run [''key-1''] init_state
                [Submit 1700000000 1234 1700000000250000 ''hello'' 3, WorkerStart 0,
                 WorkerTake 0])
             ''req_1700000000_1234'' 1)) \<and>
   fst (wait_loop [''key-1''] ''req_1700000000_1234'' 120
          [[WorkerStart 0, WorkerTake 0], [],
           [WorkerStore 0
              (scripted [Raises ''504 Deadline Exceeded'', Raises ''504 Deadline Exceeded'',
                         Raises ''504 Deadline Exceeded'']) 1700000008000000],
           []]
          (run [''key-1''] init_state [Submit 1700000000 1234 1700000000250000 ''hello'' 3])) =
     Inl (TimeoutError, ''Request to the model timed out. Please try again.'')"
proof -
  let ?keys = "[''key-1'']"
  let ?rid = "''req_1700000000_1234''"
  let ?sub = "Submit 1700000000 1234 1700000000250000 ''hello'' 3"
  let ?st = "run ?keys init_state [?sub]"
  let ?w = "scripted [Raises ''504 Deadline Exceeded'', Raises ''504 Deadline Exceeded'',
                      Raises ''504 Deadline Exceeded'']"
  let ?store = "WorkerStore 0 ?w 1700000008000000"
  let ?short = "[[WorkerStart 0, WorkerTake 0], []]"
  let ?long = "[[WorkerStart 0, WorkerTake 0], [], [?store], []]"
  let ?s1 = "run ?keys init_state [?sub, WorkerStart 0, WorkerTake 0]"
  let ?s3 = "run ?keys init_state [?sub, WorkerStart 0, WorkerTake 0, ?store]"
  note t = timeouts_share_exception_type
             [where api_keys = ?keys and others = ?short and st = ?st and request_id = ?rid
                and timeout = 1 and w = ?w and err = "''504 Deadline Exceeded''"
                and message = "''hello''" and k = "Suc (Suc (Suc 0))" and others' = ?long
                and st' = ?st and rid = ?rid and now = 1700000008000000 and timeout' = 120]
  have r0: "\<not> ready ?st ?rid"
    by (simp add: ready_def eval_run eval_admit)
  have r1: "\<not> ready ?s1 ?rid"
    by (simp add: ready_def eval_run eval_admit)
  have u1: "run ?keys ?st [WorkerStart 0, WorkerTake 0] = ?s1"
    by (simp add: run_def)
  have u2: "run ?keys ?s1 [] = ?s1"
    by (simp add: run_def)
  have u3: "run ?keys ?s1 [?store] = ?s3"
    by (simp add: run_def)
  have a: "\<forall>k<length ?short. \<not> ready (turn_state ?keys ?short ?st k) ?rid"
  proof (intro allI impI)
    fix k :: nat
    assume "k < length ?short"
    then consider "k = 0" | "k = Suc 0" by (auto simp: less_Suc_eq)
    then show "\<not> ready (turn_state ?keys ?short ?st k) ?rid"
    proof cases
      case 1
      with r0 show ?thesis by simp
    next
      case 2
      with r1 u1 show ?thesis by simp
    qed
  qed
  have s: "turn_state ?keys ?short ?st (length ?short) = ?s1"
    using u1 u2 by simp
  have 1: "wait_loop ?keys ?rid 1 ?short ?st =
             (Inl (TimeoutError, wait_timeout_message 1), snd (wait_timeout ?s1 ?rid 1))"
    using t [THEN conjunct1] a s by simp
  have b: "\<forall>i<MAX_RETRIES. retried (reply_at ?w i)"
    by (simp add: MAX_RETRIES_def less_Suc_eq numeral_3_eq_3 retried_def payload_too_large_def
                  failure_text_def reply_at_def scripted_def str_lower_def lower_char_def)
  have c: "failure_text (reply_at ?w (MAX_RETRIES - 1)) = Some ''504 Deadline Exceeded''"
    by (simp add: MAX_RETRIES_def failure_text_def reply_at_def scripted_def)
  have d: "categorised_timeout ''504 Deadline Exceeded''"
    by (simp add: categorised_timeout_def str_lower_def lower_char_def)
  have e: "\<forall>j<Suc (Suc (Suc 0)). \<not> ready (turn_state ?keys ?long ?st j) ?rid"
  proof (intro allI impI)
    fix j :: nat
    assume "j < Suc (Suc (Suc 0))"
    then consider "j = 0" | "j = Suc 0" | "j = Suc (Suc 0)" by (auto simp: less_Suc_eq)
    then show "\<not> ready (turn_state ?keys ?long ?st j) ?rid"
    proof cases
      case 1
      with r0 show ?thesis by simp
    next
      case 2
      with r1 u1 show ?thesis by simp
    next
      case 3
      with r1 u1 u2 show ?thesis by simp
    qed
  qed
  have f0: "request_results ?s3 ?rid =
              Some (stored_record (fst (process_prompt_direct ?w ?keys ''hello'')) 1700000008000000)"
    by (simp add: eval_run eval_admit)
  have f: "request_results (turn_state ?keys ?long ?st (Suc (Suc (Suc 0)))) ?rid =
             Some (stored_record (fst (process_prompt_direct ?w ?keys ''hello'')) 1700000008000000)"
    using f0 u1 u2 u3 by simp
  have k3: "Suc (Suc (Suc 0)) < length ?long"
    by simp
  have 2: "fst (wait_loop ?keys ?rid 120 ?long ?st) =
             Inl (TimeoutError, ''Request to the model timed out. Please try again.'')"
    using t [THEN conjunct2, THEN conjunct1] b c d e f k3 by blast
  from 1 2 show ?thesis by blast
qed

section \<open>Properties of the queue worker\<close>

subsection \<open>Auxiliary facts\<close>

lemma worker_inv_init: "worker_inv init_state"
  by (simp add: worker_inv_def init_state_def admitted_ids_def started_ids_def finished_ids_def)

lemma one_worker_cases:
  assumes "length ws \<le> 1"
  obtains "ws = []" | w where "ws = [w]"
  using assms by (cases ws) auto

lemma start_worker_on_demand_inv:
  assumes "worker_inv st"
  shows "worker_inv (start_worker_on_demand st)"
proof (cases "\<not> queue_worker_running st \<and> queue_worker_task st = None")
  case False
  with assms show ?thesis by (auto simp: start_worker_on_demand_def)
next
  case True
  with assms have "workers st = []" by (auto simp: worker_inv_def)
  with assms True show ?thesis
    by (auto simp: worker_inv_def start_worker_on_demand_def admitted_ids_def started_ids_def
                   finished_ids_def)
qed

lemma step_inv:
  assumes inv: "worker_inv st"
  shows "worker_inv (step api_keys st e)"
proof (cases e)
  case (Submit t rnd now message priority)
  have i1: "worker_inv (start_worker_on_demand st)"
    using inv by (rule start_worker_on_demand_inv)
  have same: "current_queue_size (start_worker_on_demand st) = current_queue_size st"
    by (simp add: start_worker_on_demand_def)
  show ?thesis
  proof (cases "current_queue_size st < MAX_QUEUE_SIZE")
    case True
    from i1 show ?thesis
      unfolding Submit step.simps admit_accepted [OF True]
      by (auto simp: worker_inv_def admitted_ids_def started_ids_def finished_ids_def
                     start_worker_on_demand_keeps)
  next
    case False
    then have ge: "MAX_QUEUE_SIZE \<le> current_queue_size st" by simp
    from i1 show ?thesis
      unfolding Submit step.simps admit_rejected [OF ge]
      by (auto simp: worker_inv_def admitted_ids_def started_ids_def finished_ids_def
                     start_worker_on_demand_keeps)
  qed
next
  case (WorkerStart i)
  from inv have "length (workers st) \<le> 1" by (simp add: worker_inv_def)
  then show ?thesis
  proof (cases rule: one_worker_cases)
    case 1
    with inv WorkerStart show ?thesis by (simp add: worker_start_def)
  next
    case (2 w)
    with inv WorkerStart show ?thesis
      by (cases w; cases i)
         (auto simp: worker_start_def worker_inv_def admitted_ids_def started_ids_def
                     finished_ids_def)
  qed
next
  case (WorkerTake i)
  from inv have "length (workers st) \<le> 1" by (simp add: worker_inv_def)
  then show ?thesis
  proof (cases rule: one_worker_cases)
    case 1
    with inv WorkerTake show ?thesis by (simp add: worker_take_def)
  next
    case (2 w)
    with inv WorkerTake show ?thesis
      by (cases w; cases i; cases "request_queue st")
         (auto simp: worker_take_def worker_inv_def admitted_ids_def started_ids_def
                     finished_ids_def)
  qed
next
  case (WorkerStore i w now)
  from inv have "length (workers st) \<le> 1" by (simp add: worker_inv_def)
  then show ?thesis
  proof (cases rule: one_worker_cases)
    case 1
    with inv WorkerStore show ?thesis by (simp add: worker_store_def)
  next
    case (2 wk)
    with inv WorkerStore show ?thesis
      by (cases wk; cases i)
         (auto simp: worker_store_def worker_inv_def admitted_ids_def started_ids_def
                     finished_ids_def stored_line_def Let_def
               split: outcome.splits)
  qed
next
  case (WorkerResume i)
  from inv have "length (workers st) \<le> 1" by (simp add: worker_inv_def)
  then show ?thesis
  proof (cases rule: one_worker_cases)
    case 1
    with inv WorkerResume show ?thesis by (simp add: worker_resume_def)
  next
    case (2 w)
    with inv WorkerResume show ?thesis
      by (cases w; cases i)
         (auto simp: worker_resume_def worker_inv_def admitted_ids_def started_ids_def
                     finished_ids_def)
  qed
next
  case (WorkerCancel i)
  from inv have "length (workers st) \<le> 1" by (simp add: worker_inv_def)
  then show ?thesis
  proof (cases rule: one_worker_cases)
    case 1
    with inv WorkerCancel show ?thesis by (simp add: worker_cancel_def)
  next
    case (2 w)
    with inv WorkerCancel show ?thesis
      by (cases w; cases i)
         (auto simp: worker_cancel_def worker_inv_def admitted_ids_def started_ids_def
                     finished_ids_def)
  qed
next
  case (Poll request_id)
  with inv show ?thesis
    by (auto simp: poll_result_def worker_inv_def admitted_ids_def started_ids_def
                   finished_ids_def
             split: option.splits)
next
  case (GiveUp request_id timeout)
  with inv show ?thesis
    by (auto simp: wait_timeout_def worker_inv_def admitted_ids_def started_ids_def
                   finished_ids_def
             split: option.splits)
next
  case (Cleanup now)
  with inv show ?thesis
    by (auto simp: cleanup_old_results_def worker_inv_def admitted_ids_def started_ids_def
                   finished_ids_def)
qed

lemma run_inv:
  "worker_inv st \<Longrightarrow> worker_inv (run api_keys st evs)"
  unfolding run_def by (induction evs arbitrary: st) (simp_all add: step_inv)

lemma unfinished_length:
  "length ws \<le> 1 \<Longrightarrow> unfinished ws rest \<Longrightarrow> length rest \<le> 1"
  by (induction ws rest rule: unfinished.induct) auto

lemma in_flight_le_workers: "in_flight st \<le> length (workers st)"
  by (simp add: in_flight_def)

lemmas eval_log =
  admitted_ids_def started_ids_def finished_ids_def in_flight_def

subsection \<open>Claim C10: one request at a time, in the order of admission\<close>

text \<open>
  As stated, the last part of C10 fails: \<open>timeout\<close> is a terminal status too, and it is
  the waiting caller who writes it when its own wait runs out. Here the worker is busy
  with the first request when a second caller, who waits one second, gives up: the
  second request's entry is \<open>timeout\<close> while the first, admitted before it, is still
  \<open>queued\<close>.
\<close>

theorem fifo_terminal_order_counterexample:
  "admitted_ids
     (snd (process_prompt [''key-1'']
             (run [''key-1''] init_state
                [Submit 1700000000 1111 1700000000250000 ''first'' 3, WorkerStart 0, WorkerTake 0])
             1700000001 2222 1700000001250000 ''second'' 3 True 1 [[], []])) =
     [''req_1700000000_1111'', ''req_1700000001_2222''] \<and>
   map_option status
     (request_results
        (snd (process_prompt [''key-1'']
                (run [''key-1''] init_state
                   [Submit 1700000000 1111 1700000000250000 ''first'' 3, WorkerStart 0, WorkerTake 0])
                1700000001 2222 1700000001250000 ''second'' 3 True 1 [[], []]))
        ''req_1700000001_2222'') = Some Timeout \<and>
   map_option status
     (request_results
        (snd (process_prompt [''key-1'']
                (run [''key-1''] init_state
                   [Submit 1700000000 1111 1700000000250000 ''first'' 3, WorkerStart 0, WorkerTake 0])
                1700000001 2222 1700000001250000 ''second'' 3 True 1 [[], []]))
        ''req_1700000000_1111'') = Some Queued"
  by (simp add: process_prompt_def eval_run eval_admit eval_log)

text \<open>
  Claim C10, as amended. In every run from the module's initial state there is at most
  one worker task and at most one request in flight, whatever the limiter has free. The
  worker begins the requests in the order of their admission (the requests added are
  those begun, then those still queued) and finishes them, completed or failed, in that
  same order, one at a time (the requests begun are those finished, then at most one).
  After storing a result the worker is in its pause of 0.5 seconds, and a worker in its
  pause takes nothing from the queue.
\<close>

theorem worker_serialises:
  assumes "st = run api_keys init_state evs"
  shows "length (workers st) \<le> 1 \<and>
         in_flight st \<le> 1 \<and>
         admitted_ids st = started_ids st @ map fst (request_queue st) \<and>
         (\<exists>rest. started_ids st = finished_ids st @ rest \<and> length rest \<le> 1) \<and>
         (i < length (workers st) \<and> workers st ! i = Processing r \<longrightarrow>
            workers (step api_keys st (WorkerStore i w now)) ! i = Pausing (1 / 2)) \<and>
         (i < length (workers st) \<and> workers st ! i = Pausing d \<longrightarrow>
            step api_keys st (WorkerTake i) = st)"
proof -
  have inv: "worker_inv st"
    unfolding assms by (rule run_inv) (rule worker_inv_init)
  then have one: "length (workers st) \<le> 1"
    by (simp add: worker_inv_def)
  from inv obtain rest where rest: "started_ids st = finished_ids st @ rest"
    and u: "unfinished (workers st) rest"
    by (auto simp: worker_inv_def)
  have "length rest \<le> 1"
    using one u by (rule unfinished_length)
  with rest have fin: "\<exists>rest. started_ids st = finished_ids st @ rest \<and> length rest \<le> 1"
    by blast
  have fl: "in_flight st \<le> 1"
    using in_flight_le_workers [of st] one by simp
  have adm: "admitted_ids st = started_ids st @ map fst (request_queue st)"
    using inv by (simp add: worker_inv_def)
  have pause: "i < length (workers st) \<and> workers st ! i = Processing r \<longrightarrow>
                 workers (step api_keys st (WorkerStore i w now)) ! i = Pausing (1 / 2)"
    by (simp add: worker_store_def Let_def)
  have wait: "i < length (workers st) \<and> workers st ! i = Pausing d \<longrightarrow>
                step api_keys st (WorkerTake i) = st"
    by (simp add: worker_take_def)
  from one fl adm fin pause wait show ?thesis by blast
qed

text \<open>
  The theorem at a run of two requests: the first is finished and the second has been
  begun.
\<close>

theorem worker_serialises_witness:
  "finished_ids
     (run [''key-1''] init_state
        [Submit 1700000000 1111 1700000000250000 ''first'' 3, Submit 1700000001 2222 1700000001250000 ''second'' 3,
         WorkerStart 0, WorkerTake 0, WorkerStore 0 (scripted [Text ''one'']) 1700000003000000,
         WorkerResume 0, WorkerTake 0]) = [''req_1700000000_1111''] \<and>
   admitted_ids
     (run [''key-1''] init_state
        [Submit 1700000000 1111 1700000000250000 ''first'' 3, Submit 1700000001 2222 1700000001250000 ''second'' 3,
         WorkerStart 0, WorkerTake 0, WorkerStore 0 (scripted [Text ''one'']) 1700000003000000,
         WorkerResume 0, WorkerTake 0]) =
     started_ids
       (run [''key-1''] init_state
          [Submit 1700000000 1111 1700000000250000 ''first'' 3, Submit 1700000001 2222 1700000001250000 ''second'' 3,
           WorkerStart 0, WorkerTake 0, WorkerStore 0 (scripted [Text ''one'']) 1700000003000000,
           WorkerResume 0, WorkerTake 0]) @
     map fst
       (request_queue
          (run [''key-1''] init_state
             [Submit 1700000000 1111 1700000000250000 ''first'' 3, Submit 1700000001 2222 1700000001250000 ''second'' 3,
              WorkerStart 0, WorkerTake 0, WorkerStore 0 (scripted [Text ''one'']) 1700000003000000,
              WorkerResume 0, WorkerTake 0]))"
proof -
  let ?evs = "[Submit 1700000000 1111 1700000000250000 ''first'' 3, Submit 1700000001 2222 1700000001250000 ''second'' 3,
               WorkerStart 0, WorkerTake 0, WorkerStore 0 (scripted [Text ''one'']) 1700000003000000,
               WorkerResume 0, WorkerTake 0]"
  have f: "finished_ids (run [''key-1''] init_state ?evs) = [''req_1700000000_1111'']"
    by (simp add: eval_run eval_admit eval_log eval_direct)
  from worker_serialises [OF refl, of "[''key-1'']" ?evs]
  have "admitted_ids (run [''key-1''] init_state ?evs) =
          started_ids (run [''key-1''] init_state ?evs) @
          map fst (request_queue (run [''key-1''] init_state ?evs))"
    by blast
  with f show ?thesis by blast
qed

section \<open>Properties of the start-up\<close>

subsection \<open>Auxiliary facts\<close>

lemma load_numbered_keys_extends:
  assumes "load_numbered_keys env i api_keys = Some r"
  shows "\<exists>more. r = api_keys @ more"
  using assms
proof (induction rule: load_numbered_keys.raw_induct [rotated 1, consumes 1])
  case (1 load env i api_keys r)
  from "1"(2) show ?case
    by (auto split: option.splits if_splits dest!: "1"(1))
qed

lemma load_numbered_keys_stop:
  "env (''GEMINI_API_KEY_'' @ str_nat i) = None \<Longrightarrow>
     load_numbered_keys env i api_keys = Some api_keys"
  by (subst load_numbered_keys.simps) simp

lemma load_numbered_keys_next:
  "env (''GEMINI_API_KEY_'' @ str_nat i) = Some key \<Longrightarrow> key \<noteq> [] \<Longrightarrow>
     load_numbered_keys env i api_keys = load_numbered_keys env (i + 1) (api_keys @ [key])"
  by (subst load_numbered_keys.simps) simp

lemma empty_pool_main_key_missing:
  assumes "load_api_keys env = Some []"
  shows "\<not> truthy (env ''GEMINI_API_KEY'')"
proof
  assume t: "truthy (env ''GEMINI_API_KEY'')"
  then obtain k where k: "env ''GEMINI_API_KEY'' = Some k" "k \<noteq> []"
    by (auto simp: truthy_def split: option.splits)
  with assms have "load_numbered_keys env 1 [k] = Some []"
    by (simp add: load_api_keys_def)
  from load_numbered_keys_extends [OF this] show False by simp
qed

lemma keys_loaded_example:
  "main [''TELEGRAM_TOKEN'' \<mapsto> ''123:abc'', ''GEMINI_API_KEY'' \<mapsto> ''k0'',
         ''GEMINI_API_KEY_1'' \<mapsto> ''k1''] = Some (Inr ([''k0'', ''k1''], init_state))"
proof -
  let ?env = "[''TELEGRAM_TOKEN'' \<mapsto> ''123:abc'', ''GEMINI_API_KEY'' \<mapsto> ''k0'',
         ''GEMINI_API_KEY_1'' \<mapsto> ''k1'']"
  have 1: "?env (''GEMINI_API_KEY_'' @ str_nat 1) = Some ''k1''"
    by (simp add: str_nat.simps digit_char_def)
  have 2: "?env (''GEMINI_API_KEY_'' @ str_nat (1 + 1)) = None"
    by (simp add: str_nat.simps digit_char_def)
  have "load_numbered_keys ?env 1 [''k0''] = load_numbered_keys ?env (1 + 1) ([''k0''] @ [''k1''])"
    using 1 by (rule load_numbered_keys_next) simp
  also have "\<dots> = Some ([''k0''] @ [''k1''])"
    using 2 by (rule load_numbered_keys_stop)
  finally have "load_api_keys ?env = Some [''k0'', ''k1'']"
    by (simp add: load_api_keys_def)
  then show ?thesis
    by (simp add: main_def missing_vars_def required_vars_def truthy_def)
qed

subsection \<open>Claim C5: no start without a key\<close>

text \<open>
  Claim C5. When the environment yields no key (\<open>api_keys\<close> is empty), \<open>GEMINI_API_KEY\<close> is
  among the missing required variables, so \<open>main\<close> logs the error and returns exit status
  1 before the bot, the queue and the worker exist. Conversely, whenever the bot is
  started, the keys it is started with are those of the environment and there is at
  least one.
\<close>

theorem empty_pool_refuses_start:
  "(load_api_keys env = Some [] \<longrightarrow> main env = Some (Inl 1)) \<and>
   (main env = Some (Inr (api_keys, st)) \<longrightarrow>
      api_keys \<noteq> [] \<and> load_api_keys env = Some api_keys \<and> st = init_state)"
proof (intro conjI impI)
  assume "load_api_keys env = Some []"
  then have "\<not> truthy (env ''GEMINI_API_KEY'')"
    by (rule empty_pool_main_key_missing)
  then have "missing_vars env \<noteq> []"
    by (simp add: missing_vars_def required_vars_def)
  then show "main env = Some (Inl 1)"
    by (simp add: main_def)
next
  assume m: "main env = Some (Inr (api_keys, st))"
  then have nomiss: "missing_vars env = []"
    by (auto simp: main_def split: if_splits)
  with m show "load_api_keys env = Some api_keys"
    by (auto simp: main_def split: option.splits)
  from m nomiss show "st = init_state"
    by (auto simp: main_def split: option.splits)
  from nomiss have "truthy (env ''GEMINI_API_KEY'')"
    by (auto simp: missing_vars_def required_vars_def split: if_splits)
  moreover from m nomiss have "load_api_keys env = Some api_keys"
    by (auto simp: main_def split: option.splits)
  ultimately show "api_keys \<noteq> []"
    using empty_pool_main_key_missing [of env] by auto
qed

text \<open>The theorem at an environment that sets the bot token only.\<close>

theorem empty_pool_refuses_start_witness:
  "load_api_keys [''TELEGRAM_TOKEN'' \<mapsto> ''123:abc''] = Some [] \<and>
   main [''TELEGRAM_TOKEN'' \<mapsto> ''123:abc''] = Some (Inl 1)"
proof -
  let ?env = "[''TELEGRAM_TOKEN'' \<mapsto> ''123:abc'']"
  have "?env (''GEMINI_API_KEY_'' @ str_nat 1) = None"
    by (simp add: str_nat.simps digit_char_def)
  then have "load_numbered_keys ?env 1 [] = Some []"
    by (rule load_numbered_keys_stop)
  then have e: "load_api_keys ?env = Some []"
    by (simp add: load_api_keys_def)
  with empty_pool_refuses_start [of ?env] show ?thesis by blast
qed

end
